theory Spec2Isabelle
  imports Complex_Main "HOL-Library.AList"
begin

section \<open>Strings\<close>

text \<open>
  Strings are lists of code units. Only the ASCII letters take part in the case maps:
  \<open>toLowerCase\<close> sends \<open>A..Z\<close> to \<open>a..z\<close>, \<open>toUpperCase\<close> sends \<open>a..z\<close> to \<open>A..Z\<close>, every
  other code unit is left as it is. The pattern of the language tags only ever accepts
  ASCII letters, digits and the dash. Strings are taken to be ASCII throughout: the case
  maps of the language on letters outside ASCII are not part of this development, and no
  statement below is about such a string.
\<close>

definition upperAZ :: string where
  "upperAZ = ''ABCDEFGHIJKLMNOPQRSTUVWXYZ''"

definition lowerAZ :: string where
  "lowerAZ = ''abcdefghijklmnopqrstuvwxyz''"

definition toLowerChar :: "char \<Rightarrow> char" where
  "toLowerChar c = (case map_of (zip upperAZ lowerAZ) c of Some l \<Rightarrow> l | None \<Rightarrow> c)"

definition toUpperChar :: "char \<Rightarrow> char" where
  "toUpperChar c = (case map_of (zip lowerAZ upperAZ) c of Some u \<Rightarrow> u | None \<Rightarrow> c)"

definition toLowerCase :: "string \<Rightarrow> string" where
  "toLowerCase s = map toLowerChar s"

definition toUpperCase :: "string \<Rightarrow> string" where
  "toUpperCase s = map toUpperChar s"

text \<open>A value of type \<open>string | undefined\<close> is truthy when it is a non-empty string.\<close>

definition truthy :: "string option \<Rightarrow> bool" where
  "truthy t = (case t of None \<Rightarrow> False | Some s \<Rightarrow> s \<noteq> [])"

section \<open>Regular expressions with capture groups\<close>

text \<open>
  The fragment of the regular expressions that \<open>pattern\<close> uses: character classes,
  concatenation, alternation, the greedy quantifiers \<open>?\<close>, \<open>{m,n}\<close> and \<open>+\<close>, and numbered
  capture groups. A match state is the rest of the input with the captures made so far.
  \<open>steps r st\<close> lists, in the order in which a backtracking matcher tries them, the states
  in which a match of \<open>r\<close> from \<open>st\<close> can end: the first alternative before the second, one
  more repetition before stopping.
\<close>

datatype regex =
    Class "char list"
  | Cat regex regex
  | Alt regex regex
  | Opt regex
  | Repeat nat nat regex
  | Plus regex
  | Group nat regex

type_synonym mstate = "string \<times> (nat \<rightharpoonup> string)"

fun repeat :: "(mstate \<Rightarrow> mstate list) \<Rightarrow> nat \<Rightarrow> nat \<Rightarrow> mstate \<Rightarrow> mstate list" where
  "repeat f m 0 st = (if m = 0 then [st] else [])"
| "repeat f m (Suc n) st =
     concat (map (repeat f (m - 1) n) (f st)) @ (if m = 0 then [st] else [])"

text \<open>
  \<open>r+\<close>: at least one match of \<open>r\<close>, then as many more as possible. Every round of the
  bodies used here consumes input, so the length of the input bounds the rounds.
\<close>

fun plus_iter :: "(mstate \<Rightarrow> mstate list) \<Rightarrow> nat \<Rightarrow> mstate \<Rightarrow> mstate list" where
  "plus_iter f 0 st = []"
| "plus_iter f (Suc n) st = concat (map (\<lambda>st'. plus_iter f n st' @ [st']) (f st))"

primrec steps :: "regex \<Rightarrow> mstate \<Rightarrow> mstate list" where
  "steps (Class cs) st =
     (case fst st of [] \<Rightarrow> [] | c # s \<Rightarrow> if c \<in> set cs then [(s, snd st)] else [])"
| "steps (Cat r1 r2) st = concat (map (steps r2) (steps r1 st))"
| "steps (Alt r1 r2) st = steps r1 st @ steps r2 st"
| "steps (Opt r) st = steps r st @ [st]"
| "steps (Repeat m n r) st = repeat (steps r) m n st"
| "steps (Plus r) st = plus_iter (steps r) (length (fst st)) st"
| "steps (Group g r) st =
     map (\<lambda>st'. (fst st', (snd st')(g \<mapsto> take (length (fst st) - length (fst st')) (fst st))))
       (steps r st)"

text \<open>
  \<open>exec\<close> for a pattern anchored by \<open>^\<close> and \<open>$\<close>: the match starts at the first code unit
  and the first way of matching that ends at the end of the input is the result.
\<close>

definition exec :: "regex \<Rightarrow> string \<Rightarrow> (nat \<rightharpoonup> string) option" where
  "exec r s = map_option snd (find (\<lambda>st. fst st = []) (steps r (s, Map.empty)))"

text \<open>
  The classes under the flag \<open>i\<close>: \<open>[a-z]\<close> accepts the ASCII letters of both cases.
\<close>

definition alpha :: "char list" where
  "alpha = lowerAZ @ upperAZ"

definition digit :: "char list" where
  "digit = ''0123456789''"

definition alnum :: "char list" where
  "alnum = alpha @ digit"

definition dash :: regex where
  "dash = Class ''-''"

definition languageRx :: regex where
  "languageRx = Group 1 (Repeat 2 3 (Class alpha))"

definition extendedLanguageRx :: regex where
  "extendedLanguageRx = Opt (Group 2 (Cat dash (Repeat 3 3 (Class alpha))))"

definition scriptRx :: regex where
  "scriptRx = Opt (Group 3 (Cat dash (Repeat 4 4 (Class alpha))))"

text \<open>\<open>(-[a-z]{2}|[0-9]{3})?\<close>: the dash belongs to the first alternative only.\<close>

definition regionRx :: regex where
  "regionRx =
     Opt (Group 4 (Alt (Cat dash (Repeat 2 2 (Class alpha))) (Repeat 3 3 (Class digit))))"

definition variantRx :: regex where
  "variantRx =
     Opt (Group 5 (Alt (Cat dash (Repeat 5 8 (Class alpha)))
                       (Cat dash (Cat (Class digit) (Repeat 3 3 (Class alnum))))))"

definition extensionRx :: regex where
  "extensionRx =
     Opt (Group 6 (Cat dash (Cat (Class alnum) (Plus (Cat dash (Repeat 1 8 (Class alnum)))))))"

definition pattern :: regex where
  "pattern =
     Cat languageRx (Cat extendedLanguageRx (Cat scriptRx (Cat regionRx
       (Cat variantRx extensionRx))))"

section \<open>Language tags and their registry\<close>

text \<open>
  A \<open>LanguageTagImpl\<close> object: its fields and \<open>oid\<close>, the number of its allocation, which is
  its identity. Objects are never mutated, and every allocation takes a new number, so two
  values of this record that the program can hold are equal exactly when they are the same
  object (\<open>===\<close>).
\<close>

record LanguageTag =
  oid :: nat
  tag :: string
  language :: string
  extendedLanguage :: "string option"
  script :: "string option"
  region :: "string option"
  variant :: "string option"
  extension :: "string option"

datatype error =
    InvalidLanguageTag string
  | NoMatchingSelection string
  | TypeError

definition transform :: "string option \<Rightarrow> (string \<Rightarrow> string) \<Rightarrow> string option" where
  "transform t f = (case t of None \<Rightarrow> None | Some s \<Rightarrow> if s = [] then None else Some (f s))"

definition subtag :: "string option \<Rightarrow> string" where
  "subtag t = (case t of None \<Rightarrow> [] | Some s \<Rightarrow> if s = [] then [] else CHR ''-'' # s)"

text \<open>
  \<open>x[0].toUpperCase() + x.substr(1).toLowerCase()\<close>; \<open>transform\<close> applies it to non-empty
  strings only.
\<close>

fun titleCase :: "string \<Rightarrow> string" where
  "titleCase [] = []"
| "titleCase (c # cs) = toUpperCase [c] @ toLowerCase cs"

definition LanguageTagImpl ::
  "nat \<Rightarrow> string \<Rightarrow> string option \<Rightarrow> string option \<Rightarrow> string option \<Rightarrow> string option \<Rightarrow>
   string option \<Rightarrow> LanguageTag" where
  "LanguageTagImpl new lang extLang scr reg var ext =
     (let extendedLanguage' = transform extLang toLowerCase;
          script' = transform scr titleCase;
          region' = transform reg toUpperCase;
          variant' = transform var toLowerCase;
          extension' = transform ext toLowerCase
      in \<lparr> oid = new,
           tag = toLowerCase lang @ subtag extendedLanguage' @ subtag script' @
                 subtag region' @ subtag variant' @ subtag extension',
           language = toLowerCase lang,
           extendedLanguage = extendedLanguage',
           script = script',
           region = region',
           variant = variant',
           extension = extension' \<rparr>)"

text \<open>
  The registry \<open>languageTags\<close>: the map \<open>instances\<close>, in insertion order, and the number of
  objects allocated so far.
\<close>

record registry =
  instances :: "(string \<times> LanguageTag) list"
  allocated :: nat

definition emptyRegistry :: registry where
  "emptyRegistry = \<lparr> instances = [], allocated = 0 \<rparr>"

definition unifiedSubtag :: "string option \<Rightarrow> string" where
  "unifiedSubtag t =
     (case t of None \<Rightarrow> [] | Some s \<Rightarrow> if s = [] then [] else CHR ''-'' # toLowerCase s)"

definition unifiedTagOf ::
  "string \<Rightarrow> string option \<Rightarrow> string option \<Rightarrow> string option \<Rightarrow> string option \<Rightarrow>
   string option \<Rightarrow> string" where
  "unifiedTagOf lang extLang scr reg var ext =
     toLowerCase lang @ unifiedSubtag extLang @ unifiedSubtag scr @ unifiedSubtag reg @
     unifiedSubtag var @ unifiedSubtag ext"

definition fromSubTags ::
  "string \<Rightarrow> string option \<Rightarrow> string option \<Rightarrow> string option \<Rightarrow> string option \<Rightarrow>
   string option \<Rightarrow> registry \<Rightarrow> LanguageTag \<times> registry" where
  "fromSubTags lang extLang scr reg var ext rg =
     (let unifiedTag = unifiedTagOf lang extLang scr reg var ext
      in case map_of (instances rg) unifiedTag of
           Some existing \<Rightarrow> (existing, rg)
         | None \<Rightarrow>
             (let t = LanguageTagImpl (allocated rg) lang extLang scr reg var ext
              in (t, \<lparr> instances = AList.update unifiedTag t (instances rg),
                       allocated = Suc (allocated rg) \<rparr>)))"

text \<open>\<open>m[n] ? m[n].substr(1) : undefined\<close>\<close>

definition group :: "(nat \<rightharpoonup> string) \<Rightarrow> nat \<Rightarrow> string option" where
  "group m n = (case m n of None \<Rightarrow> None | Some s \<Rightarrow> if s = [] then None else Some (drop 1 s))"

definition createFromString :: "string \<Rightarrow> registry \<Rightarrow> error + LanguageTag \<times> registry" where
  "createFromString unifiedTag rg =
     (case exec pattern unifiedTag of
        None \<Rightarrow> Inl (InvalidLanguageTag unifiedTag)
      | Some match \<Rightarrow>
          (case match 1 of
             None \<Rightarrow> Inl TypeError
           | Some lang \<Rightarrow>
               (let inst = LanguageTagImpl (allocated rg) lang (group match 2) (group match 3)
                             (group match 4) (group match 5) (group match 6)
                in Inr (inst, \<lparr> instances = AList.update unifiedTag inst (instances rg),
                                allocated = Suc (allocated rg) \<rparr>))))"

definition fromString :: "string \<Rightarrow> registry \<Rightarrow> error + LanguageTag \<times> registry" where
  "fromString t rg =
     (let unifiedTag = toLowerCase t
      in case map_of (instances rg) unifiedTag of
           Some existing \<Rightarrow> Inr (existing, rg)
         | None \<Rightarrow> createFromString unifiedTag rg)"

definition languageTag :: "string \<Rightarrow> registry \<Rightarrow> error + LanguageTag \<times> registry" where
  "languageTag t rg = fromString t rg"

subsection \<open>The methods of a language tag\<close>

definition matches :: "LanguageTag \<Rightarrow> LanguageTag \<Rightarrow> bool" where
  "matches this other = (language this = language other)"

definition matchesOneOf :: "LanguageTag \<Rightarrow> LanguageTag list \<Rightarrow> bool" where
  "matchesOneOf this others = (find (\<lambda>other. matches this other) others \<noteq> None)"

definition withoutExtension :: "LanguageTag \<Rightarrow> registry \<Rightarrow> LanguageTag \<times> registry" where
  "withoutExtension this rg =
     fromSubTags (language this) (extendedLanguage this) (script this) (region this)
       (variant this) None rg"

definition withoutVariant :: "LanguageTag \<Rightarrow> registry \<Rightarrow> LanguageTag \<times> registry" where
  "withoutVariant this rg =
     fromSubTags (language this) (extendedLanguage this) (script this) (region this)
       None None rg"

definition withoutRegion :: "LanguageTag \<Rightarrow> registry \<Rightarrow> LanguageTag \<times> registry" where
  "withoutRegion this rg =
     fromSubTags (language this) (extendedLanguage this) (script this) None None None rg"

definition withoutScript :: "LanguageTag \<Rightarrow> registry \<Rightarrow> LanguageTag \<times> registry" where
  "withoutScript this rg =
     fromSubTags (language this) (extendedLanguage this) None None None None rg"

definition withoutExtendedLanguage :: "LanguageTag \<Rightarrow> registry \<Rightarrow> LanguageTag \<times> registry" where
  "withoutExtendedLanguage this rg =
     fromSubTags (language this) None None None None None rg"

definition parent :: "LanguageTag \<Rightarrow> registry \<Rightarrow> LanguageTag option \<times> registry" where
  "parent this rg =
     (if truthy (extension this) then apfst Some (withoutExtension this rg)
      else if truthy (variant this) then apfst Some (withoutVariant this rg)
      else if truthy (region this) then apfst Some (withoutRegion this rg)
      else if truthy (script this) then apfst Some (withoutScript this rg)
      else if truthy (extendedLanguage this) then apfst Some (withoutExtendedLanguage this rg)
      else (None, rg))"

text \<open>
  The score is the quotient of two integers between 32 and 63. It is kept as a rational
  number: two such quotients that differ do so by more than the rounding of the floating
  point division, so every comparison of scores comes out as it does on the rationals.
\<close>

definition possiblePoints :: "LanguageTag \<Rightarrow> LanguageTag \<Rightarrow> nat" where
  "possiblePoints this other =
     32 +
     (if truthy (extension this) \<or> truthy (extension other) then 1 else 0) +
     (if truthy (variant this) \<or> truthy (variant other) then 2 else 0) +
     (if truthy (region this) \<or> truthy (region other) then 4 else 0) +
     (if truthy (script this) \<or> truthy (script other) then 8 else 0) +
     (if truthy (extendedLanguage this) \<or> truthy (extendedLanguage other) then 16 else 0)"

definition points :: "LanguageTag \<Rightarrow> LanguageTag \<Rightarrow> nat" where
  "points this other =
     32 +
     (if extension this = extension other then 1 else 0) +
     (if variant this = variant other then 2 else 0) +
     (if region this = region other then 4 else 0) +
     (if script this = script other then 8 else 0) +
     (if extendedLanguage this = extendedLanguage other then 16 else 0)"

definition equality :: "LanguageTag \<Rightarrow> LanguageTag \<Rightarrow> rat" where
  "equality this other =
     (if language this \<noteq> language other then 0
      else of_nat (points this other) / of_nat (possiblePoints this other))"

text \<open>
  The loop of \<open>pickBestMatching\<close> over \<open>others\<close>; its state \<open>bestEquality\<close> is the pair of the
  best score so far and the tag that reached it.
\<close>

definition pickStep ::
  "LanguageTag \<Rightarrow> rat \<times> LanguageTag option \<Rightarrow> LanguageTag \<Rightarrow> rat \<times> LanguageTag option" where
  "pickStep this bestEquality other =
     (let e = equality this other
      in if e > fst bestEquality then (e, Some other) else bestEquality)"

definition pickBestMatching :: "LanguageTag \<Rightarrow> LanguageTag list \<Rightarrow> LanguageTag option" where
  "pickBestMatching this others = snd (foldl (pickStep this) (0, None) others)"

section \<open>Translators\<close>

text \<open>
  A messages object is the list of its own properties in insertion order, the message
  values of any type \<open>'v\<close>. The object spread \<open>{...a, ...b}\<close> copies the properties of \<open>a\<close> and
  then assigns those of \<open>b\<close>: a key of \<open>a\<close> keeps its place and takes the value of \<open>b\<close>, a new
  key is added at the end. Keys that are written like array indices, which the language
  lists before the others, are not used as message keys here; the lookup of a key does
  not depend on the order.
\<close>

type_synonym 'v Messages = "(string \<times> 'v) list"

type_synonym 'v LocalizedMessages = "LanguageTag \<Rightarrow> 'v Messages"

datatype 'v MessagesParameter =
    Plain "'v Messages"
  | Localized "'v LocalizedMessages"

definition spread :: "'v Messages \<Rightarrow> 'v Messages \<Rightarrow> 'v Messages" where
  "spread a b = foldl (\<lambda>acc kv. AList.update (fst kv) (snd kv) acc) a b"

definition localizedMessages :: "'v MessagesParameter \<Rightarrow> 'v LocalizedMessages" where
  "localizedMessages messages =
     (case messages of Localized f \<Rightarrow> f | Plain m \<Rightarrow> (\<lambda>language. m))"

datatype Language =
    OfTag LanguageTag
  | OfString string

text \<open>The function \<open>tag\<close> of the translator module.\<close>

definition tagOf :: "Language \<Rightarrow> registry \<Rightarrow> error + LanguageTag \<times> registry" where
  "tagOf lang rg = (case lang of OfString s \<Rightarrow> languageTag s rg | OfTag t \<Rightarrow> Inr (t, rg))"

text \<open>
  \<open>CachedMessageProvider.messagesFor\<close>. The class is abstract in \<open>buildMessages\<close>, which is
  a parameter here: it works on a state \<open>'w\<close> of everything outside the provider and returns
  \<open>None\<close> when it does not return. The field \<open>messageCache\<close> is the first component of the
  state of \<open>messagesFor\<close>.
\<close>

type_synonym ('m, 'w) builder = "LanguageTag \<Rightarrow> 'w \<Rightarrow> ('m \<times> 'w) option"

type_synonym 'm MessageCache = "(LanguageTag \<times> 'm) option"

definition messagesFor ::
  "('m, 'w) builder \<Rightarrow> LanguageTag \<Rightarrow> 'm MessageCache \<times> 'w \<Rightarrow>
   ('m \<times> 'm MessageCache \<times> 'w) option" where
  "messagesFor buildMessages lang st =
     (case fst st of
        Some (cachedLanguage, cachedMessages) \<Rightarrow>
          if cachedLanguage = lang then Some (cachedMessages, fst st, snd st)
          else (case buildMessages lang (snd st) of
                  None \<Rightarrow> None
                | Some (messages, w) \<Rightarrow> Some (messages, Some (lang, messages), w))
      | None \<Rightarrow>
          (case buildMessages lang (snd st) of
             None \<Rightarrow> None
           | Some (messages, w) \<Rightarrow> Some (messages, Some (lang, messages), w)))"

record 'v TranslatorImpl =
  messageCache :: "'v Messages MessageCache"
  defaultMessages :: "'v LocalizedMessages"
  translationMap :: "(LanguageTag \<times> 'v LocalizedMessages) list"
  supportedLanguages :: "LanguageTag list"

definition newTranslatorImpl ::
  "'v LocalizedMessages \<Rightarrow> (LanguageTag \<times> 'v LocalizedMessages) list \<Rightarrow> 'v TranslatorImpl" where
  "newTranslatorImpl dflt trs =
     \<lparr> messageCache = None, defaultMessages = dflt, translationMap = trs,
       supportedLanguages = map fst trs \<rparr>"

definition translate :: "'v MessagesParameter \<Rightarrow> 'v TranslatorImpl" where
  "translate dflt = newTranslatorImpl (localizedMessages dflt) []"

definition partiallySupporting ::
  "'v TranslatorImpl \<Rightarrow> Language \<Rightarrow> 'v MessagesParameter \<Rightarrow> registry \<Rightarrow>
   error + 'v TranslatorImpl \<times> registry" where
  "partiallySupporting this lang translation rg =
     (case tagOf lang rg of
        Inl e \<Rightarrow> Inl e
      | Inr (l, rg') \<Rightarrow>
          Inr (newTranslatorImpl (defaultMessages this)
                 (AList.update l (localizedMessages translation) (translationMap this)), rg'))"

definition supporting ::
  "'v TranslatorImpl \<Rightarrow> string \<Rightarrow> 'v MessagesParameter \<Rightarrow> registry \<Rightarrow>
   error + 'v TranslatorImpl \<times> registry" where
  "supporting this lang translation rg = partiallySupporting this (OfString lang) translation rg"

text \<open>
  \<open>buildRecursive\<close> follows \<open>parent()\<close>, which goes through the registry; a registry that
  hands out a tag as its own ancestor would keep it running, and then the result is \<open>None\<close>.
\<close>

partial_function (option) buildRecursive ::
  "'v TranslatorImpl \<Rightarrow> 'v Messages \<Rightarrow> LanguageTag \<Rightarrow> LanguageTag option \<Rightarrow> registry \<Rightarrow>
   ('v Messages \<times> registry) option" where
  "buildRecursive this base requestedLanguage translationLanguage rg =
     (case translationLanguage of
        None \<Rightarrow> Some (base, rg)
      | Some t \<Rightarrow>
          (case map_of (translationMap this) t of
             Some translation \<Rightarrow>
               Option.bind
                 (buildRecursive this base requestedLanguage (fst (parent t rg)) (snd (parent t rg)))
                 (\<lambda>r. Some (spread (fst r) (translation requestedLanguage), snd r))
           | None \<Rightarrow>
               buildRecursive this base requestedLanguage (fst (parent t rg)) (snd (parent t rg))))"

declare buildRecursive.simps [code]

definition buildMessages ::
  "'v TranslatorImpl \<Rightarrow> LanguageTag \<Rightarrow> registry \<Rightarrow> ('v Messages \<times> registry) option" where
  "buildMessages this lang rg =
     (let bestMatchingLanguage = pickBestMatching lang (supportedLanguages this)
      in buildRecursive this (defaultMessages this lang) lang bestMatchingLanguage rg)"

text \<open>\<open>messagesFor\<close> of a translator: the inherited method with its own \<open>buildMessages\<close>.\<close>

definition translatorMessagesFor ::
  "'v TranslatorImpl \<Rightarrow> LanguageTag \<Rightarrow> registry \<Rightarrow>
   ('v Messages \<times> 'v TranslatorImpl \<times> registry) option" where
  "translatorMessagesFor this lang rg =
     (case messagesFor (buildMessages this) lang (messageCache this, rg) of
        None \<Rightarrow> None
      | Some (messages, cache, rg') \<Rightarrow> Some (messages, this\<lparr>messageCache := cache\<rparr>, rg'))"

section \<open>Selections\<close>

text \<open>
  The formatting engine behind \<open>formatObject\<close> is a library; it is the parameter
  \<open>formatObject\<close> below, from the language and a message format to the function that renders
  the parameters.

  \<open>optionsFormat\<close> starts as the object literal \<open>{}\<close>. Reading a property of it finds an own
  property, or else a member that every object literal inherits from \<open>Object.prototype\<close>.
  Assigning to the name \<open>__proto__\<close> runs the inherited setter and adds no own property;
  the prototype that the setter puts in place is not followed here, and the general
  statements below are about options without that name.
\<close>

definition objectPrototype :: "string list" where
  "objectPrototype =
     [''constructor'', ''hasOwnProperty'', ''isPrototypeOf'', ''propertyIsEnumerable'',
      ''toLocaleString'', ''toString'', ''valueOf'', ''__proto__'', ''__defineGetter__'',
      ''__defineSetter__'', ''__lookupGetter__'', ''__lookupSetter__'']"

datatype 'f property =
    Own 'f
  | Inherited string

definition getProperty :: "(string \<times> 'f) list \<Rightarrow> string \<Rightarrow> 'f property option" where
  "getProperty obj k =
     (case map_of obj k of
        Some f \<Rightarrow> Some (Own f)
      | None \<Rightarrow> if k \<in> set objectPrototype then Some (Inherited k) else None)"

definition setProperty :: "(string \<times> 'f) list \<Rightarrow> string \<Rightarrow> 'f \<Rightarrow> (string \<times> 'f) list" where
  "setProperty obj k f = (if k = ''__proto__'' then obj else AList.update k f obj)"

text \<open>
  What the function returned by \<open>selectObject\<close> comes to: the rendered message, or the call
  of a member inherited from \<open>Object.prototype\<close> on the parameters, which this code does not
  define. The member \<open>__proto__\<close> is an object and not a function, and calling it is a
  type error.
\<close>

datatype selected =
    Message string
  | ObjectPrototypeCall string

text \<open>The options are the own properties of \<open>options\<close>, as \<open>Object.keys\<close> lists them.\<close>

type_synonym SelectOptions = "(string \<times> string option) list"

definition optionsFormatOf ::
  "(LanguageTag \<Rightarrow> string \<Rightarrow> 'p \<Rightarrow> string) \<Rightarrow> LanguageTag \<Rightarrow> SelectOptions \<Rightarrow>
   (string \<times> ('p \<Rightarrow> string)) list" where
  "optionsFormatOf formatObject lang options =
     foldl (\<lambda>optionsFormat option.
              let optionMsg = map_of options option
              in (case optionMsg of
                    Some (Some msg) \<Rightarrow>
                      if msg \<noteq> [] then setProperty optionsFormat option (formatObject lang msg)
                      else optionsFormat
                  | _ \<Rightarrow> optionsFormat))
       [] (map fst options)"

definition selectObject ::
  "(LanguageTag \<Rightarrow> string \<Rightarrow> 'p \<Rightarrow> string) \<Rightarrow> LanguageTag \<Rightarrow> ('p \<Rightarrow> string) \<Rightarrow> SelectOptions \<Rightarrow>
   'p \<Rightarrow> error + selected" where
  "selectObject formatObject lang selector options =
     (let optionsFormat = optionsFormatOf formatObject lang options
      in (\<lambda>parameters.
            let s = selector parameters;
                match = getProperty optionsFormat s;
                result = (case match of Some m \<Rightarrow> Some m | None \<Rightarrow> getProperty optionsFormat ''other'')
            in (case result of
                  None \<Rightarrow> Inl (NoMatchingSelection s)
                | Some (Own f) \<Rightarrow> Inr (Message (f parameters))
                | Some (Inherited n) \<Rightarrow>
                    if n = ''__proto__'' then Inl TypeError else Inr (ObjectPrototypeCall n))))"

definition select ::
  "(LanguageTag \<Rightarrow> string \<Rightarrow> string \<Rightarrow> string) \<Rightarrow> LanguageTag \<Rightarrow> SelectOptions \<Rightarrow>
   string \<Rightarrow> error + selected" where
  "select formatObject lang options = selectObject formatObject lang (\<lambda>selection. selection) options"

section \<open>The grammar of the specification\<close>

text \<open>
  The grammar of language tags as the specification writes it, for comparison with
  \<open>pattern\<close>: the region is a dash and then two letters or three digits, the variant a dash
  and then five to eight letters or digits, or a digit and three letters or digits.
\<close>

definition specRegionRx :: regex where
  "specRegionRx =
     Opt (Group 4 (Cat dash (Alt (Repeat 2 2 (Class alpha)) (Repeat 3 3 (Class digit)))))"

definition specVariantRx :: regex where
  "specVariantRx =
     Opt (Group 5 (Cat dash (Alt (Repeat 5 8 (Class alnum))
                                 (Cat (Class digit) (Repeat 3 3 (Class alnum))))))"

definition specGrammar :: regex where
  "specGrammar =
     Cat languageRx (Cat extendedLanguageRx (Cat scriptRx (Cat specRegionRx
       (Cat specVariantRx extensionRx))))"

definition matchesGrammar :: "string \<Rightarrow> bool" where
  "matchesGrammar s = (exec specGrammar s \<noteq> None)"

section \<open>Scenarios\<close>

text \<open>The tags of a list of strings, requested one after the other.\<close>

fun languageTagsOf :: "string list \<Rightarrow> registry \<Rightarrow> error + LanguageTag list \<times> registry" where
  "languageTagsOf [] rg = Inr ([], rg)"
| "languageTagsOf (s # ss) rg =
     (case languageTag s rg of
        Inl e \<Rightarrow> Inl e
      | Inr (t, rg') \<Rightarrow>
          (case languageTagsOf ss rg' of
             Inl e \<Rightarrow> Inl e
           | Inr (ts, rg'') \<Rightarrow> Inr (t # ts, rg'')))"

text \<open>
  Two requests for the tag with language \<open>en\<close> and region \<open>19\<close>: the string \<open>en419\<close>, and the
  parent of the tag of \<open>en419-abcde\<close>.
\<close>

definition internedTwice :: "(LanguageTag \<times> LanguageTag) option" where
  "internedTwice =
     (case languageTagsOf [''en419'', ''en419-abcde''] emptyRegistry of
        Inr ([a, b], rg) \<Rightarrow>
          (case parent b rg of (Some p, rg') \<Rightarrow> Some (a, p) | _ \<Rightarrow> None)
      | _ \<Rightarrow> None)"

text \<open>The tags of up to \<open>n\<close> successive calls of \<open>parent()\<close>, ending with the first \<open>undefined\<close>.\<close>

fun parentTags :: "nat \<Rightarrow> LanguageTag \<Rightarrow> registry \<Rightarrow> string option list" where
  "parentTags 0 t rg = []"
| "parentTags (Suc n) t rg =
     (case parent t rg of
        (None, rg') \<Rightarrow> [None]
      | (Some p, rg') \<Rightarrow> Some (tag p) # parentTags n p rg')"

definition parentTagsOf :: "nat \<Rightarrow> string \<Rightarrow> string option list option" where
  "parentTagsOf n s =
     (case languageTag s emptyRegistry of
        Inl e \<Rightarrow> None
      | Inr (t, rg) \<Rightarrow> Some (parentTags n t rg))"

text \<open>The tag that the tag of \<open>requested\<close> picks among the tags of \<open>candidates\<close>.\<close>

definition pickedTag :: "string \<Rightarrow> string list \<Rightarrow> string option option" where
  "pickedTag requested candidates =
     (case languageTagsOf (requested # candidates) emptyRegistry of
        Inr (t # cs, rg) \<Rightarrow> Some (map_option tag (pickBestMatching t cs))
      | _ \<Rightarrow> None)"

text \<open>
  The translator of the example: a default set, a full German set, and a partial set for
  \<open>de-CH\<close> whose greeting has the code unit \<open>0xFC\<close> for the u with diaeresis.
\<close>

definition defaultSet :: "string Messages" where
  "defaultSet = [(''ok'', ''OK''), (''cancel'', ''Cancel''), (''welcome'', ''Welcome'')]"

definition germanSet :: "string Messages" where
  "germanSet = [(''ok'', ''OK''), (''cancel'', ''Abbrechen''), (''welcome'', ''Willkommen'')]"

definition swissSet :: "string Messages" where
  "swissSet = [(''welcome'', ''Gr'' @ [CHR 0xFC] @ ''ezi'')]"

definition exampleTranslator :: "error + string TranslatorImpl \<times> registry" where
  "exampleTranslator =
     (case supporting (translate (Plain defaultSet)) ''de'' (Plain germanSet) emptyRegistry of
        Inl e \<Rightarrow> Inl e
      | Inr (t, rg) \<Rightarrow> partiallySupporting t (OfString ''de-CH'') (Plain swissSet) rg)"

definition exampleMessagesFor :: "string \<Rightarrow> string Messages option" where
  "exampleMessagesFor requested =
     (case exampleTranslator of
        Inl e \<Rightarrow> None
      | Inr (translator, rg) \<Rightarrow>
          (case languageTag requested rg of
             Inl e \<Rightarrow> None
           | Inr (t, rg') \<Rightarrow> map_option fst (translatorMessagesFor translator t rg')))"

section \<open>The generalization of a tag in the words of the specification\<close>

type_synonym subtags =
  "string \<times> string option \<times> string option \<times> string option \<times> string option \<times> string option"

definition subtagsOf :: "LanguageTag \<Rightarrow> subtags" where
  "subtagsOf t = (language t, extendedLanguage t, script t, region t, variant t, extension t)"

text \<open>
  Drop the most specific subtag that is present: the extension, else the variant, else the
  region, else the script, else the extended language; a bare language has no
  generalization.
\<close>

fun generalize :: "subtags \<Rightarrow> subtags option" where
  "generalize (l, e, s, r, v, x) =
     (if truthy x then Some (l, e, s, r, v, None)
      else if truthy v then Some (l, e, s, r, None, x)
      else if truthy r then Some (l, e, s, None, v, x)
      else if truthy s then Some (l, e, None, r, v, x)
      else if truthy e then Some (l, None, s, r, v, x)
      else None)"

fun fromSubtagTuple :: "subtags \<Rightarrow> registry \<Rightarrow> LanguageTag \<times> registry" where
  "fromSubtagTuple (l, e, s, r, v, x) rg = fromSubTags l e s r v x rg"

text \<open>
  The generalization chain of a tag through a registry, from the most generic ancestor down
  to the tag itself, with the registry after the walk.
\<close>

inductive chainOf :: "LanguageTag option \<Rightarrow> registry \<Rightarrow> LanguageTag list \<Rightarrow> registry \<Rightarrow> bool" where
  chain_none: "chainOf None rg [] rg"
| chain_some: "chainOf (fst (parent t rg)) (snd (parent t rg)) ts rg' \<Longrightarrow>
               chainOf (Some t) rg (ts @ [t]) rg'"

text \<open>
  The layers of a chain over a base: a tag with a registered translation overwrites the
  keys it has, a tag without one leaves the messages as they are.
\<close>

definition overlay ::
  "'v TranslatorImpl \<Rightarrow> LanguageTag \<Rightarrow> 'v Messages \<Rightarrow> LanguageTag list \<Rightarrow> 'v Messages" where
  "overlay this requestedLanguage base ts =
     foldl (\<lambda>acc t. case map_of (translationMap this) t of
                       None \<Rightarrow> acc
                     | Some translation \<Rightarrow> spread acc (translation requestedLanguage))
       base ts"

text \<open>
  The length of the key under which \<open>fromSubTags\<close> files the subtags of a tag. In a
  registry built by the operations above no tag is filed under a key shorter than that,
  and then every call of \<open>parent()\<close> returns a tag with a shorter key.
\<close>

definition keyLength :: "LanguageTag \<Rightarrow> nat" where
  "keyLength t =
     length (unifiedTagOf (language t) (extendedLanguage t) (script t) (region t)
               (variant t) (extension t))"

definition registryOk :: "registry \<Rightarrow> bool" where
  "registryOk rg = list_all (\<lambda>kt. keyLength (snd kt) \<le> length (fst kt)) (instances rg)"

text \<open>
  A translator with two layers, one for \<open>base\<close> and one for \<open>child\<close>, over a default set
  with the keys \<open>k\<close> and \<open>j\<close>: the layer of \<open>base\<close> has \<open>k\<close>, the layer of \<open>child\<close> has \<open>j\<close>.
  \<open>layeredLookup base child\<close> asks it for the tag of \<open>child\<close> and gives the messages, the tag
  of the language supported for \<open>base\<close>, and the tag of the parent of the requested tag.
\<close>

definition twoKeySet :: "string Messages" where
  "twoKeySet = [(''k'', ''default k''), (''j'', ''default j'')]"

definition layeredTranslator ::
  "string \<Rightarrow> string \<Rightarrow> error + string TranslatorImpl \<times> registry" where
  "layeredTranslator base child =
     (case partiallySupporting (translate (Plain twoKeySet)) (OfString base)
             (Plain [(''k'', ''X'')]) emptyRegistry of
        Inl e \<Rightarrow> Inl e
      | Inr (t, rg) \<Rightarrow> partiallySupporting t (OfString child) (Plain [(''j'', ''Y'')]) rg)"

definition layeredLookup ::
  "string \<Rightarrow> string \<Rightarrow> (string Messages \<times> string option \<times> string option) option" where
  "layeredLookup base child =
     (case layeredTranslator base child of
        Inl e \<Rightarrow> None
      | Inr (translator, rg) \<Rightarrow>
          (case languageTag child rg of
             Inl e \<Rightarrow> None
           | Inr (t, rg') \<Rightarrow>
               (case translatorMessagesFor translator t rg' of
                  None \<Rightarrow> None
                | Some (messages, translator', rg'') \<Rightarrow>
                    Some (messages,
                          map_option tag (find (\<lambda>l. True) (supportedLanguages translator)),
                          map_option tag (fst (parent t rg''))))))"

text \<open>
  The tags of \<open>de-CH-1901\<close>, \<open>it\<close>, \<open>de\<close>, \<open>fr-CH\<close> and \<open>sp\<close>, and the example translator
  with the tag of \<open>de-CH-1901\<close> and the registry after all requests.
\<close>

definition exampleTags :: "LanguageTag list" where
  "exampleTags =
     (case languageTagsOf [''de-CH-1901'', ''it'', ''de'', ''fr-CH'', ''sp''] emptyRegistry of
        Inr (ts, rg) \<Rightarrow> ts
      | Inl e \<Rightarrow> [])"

definition exampleState :: "(string TranslatorImpl \<times> LanguageTag \<times> registry) option" where
  "exampleState =
     (case exampleTranslator of
        Inl e \<Rightarrow> None
      | Inr (translator, rg) \<Rightarrow>
          (case languageTag ''de-CH-1901'' rg of
             Inl e \<Rightarrow> None
           | Inr (t, rg') \<Rightarrow> Some (translator, t, rg')))"

text \<open>
  A building step that counts: what it builds carries the number of the builds before it
  and the tag it was built for.
\<close>

definition countingBuild :: "(nat \<times> string, nat) builder" where
  "countingBuild lang n = Some ((n, tag lang), Suc n)"

text \<open>
  A formatter for messages without placeholders, which render as themselves, and the tag
  \<open>en\<close> as the first object allocated.
\<close>

definition plainFormat :: "LanguageTag \<Rightarrow> string \<Rightarrow> 'p \<Rightarrow> string" where
  "plainFormat lang msg parameters = msg"

definition tagEn :: LanguageTag where
  "tagEn = LanguageTagImpl 0 ''en'' None None None None None"

text \<open>The message of an option, when the option has one and it is not the empty string.\<close>

definition messageOf :: "SelectOptions \<Rightarrow> string \<Rightarrow> string option" where
  "messageOf options k =
     (case map_of options k of
        Some (Some msg) \<Rightarrow> if msg \<noteq> [] then Some msg else None
      | _ \<Rightarrow> None)"

text \<open>
  The shape of \<open>pattern\<close> that bounds its captures: no capture group inside a capture
  group, so the captures of a match are pieces of the input that do not overlap, and
  their lengths add up to at most the length of the input.
\<close>

fun groupless :: "regex \<Rightarrow> bool" where
  "groupless (Class cs) = True"
| "groupless (Cat r1 r2) = (groupless r1 \<and> groupless r2)"
| "groupless (Alt r1 r2) = (groupless r1 \<and> groupless r2)"
| "groupless (Opt r) = groupless r"
| "groupless (Repeat m n r) = groupless r"
| "groupless (Plus r) = groupless r"
| "groupless (Group g r) = False"

fun flat :: "regex \<Rightarrow> bool" where
  "flat (Class cs) = True"
| "flat (Cat r1 r2) = (flat r1 \<and> flat r2)"
| "flat (Alt r1 r2) = (flat r1 \<and> flat r2)"
| "flat (Opt r) = flat r"
| "flat (Repeat m n r) = flat r"
| "flat (Plus r) = flat r"
| "flat (Group g r) = groupless r"

definition captureLength :: "(nat \<rightharpoonup> string) \<Rightarrow> nat \<Rightarrow> nat" where
  "captureLength m g = (case m g of None \<Rightarrow> 0 | Some s \<Rightarrow> length s)"

definition capturedLength :: "(nat \<rightharpoonup> string) \<Rightarrow> nat" where
  "capturedLength m =
     captureLength m 1 + captureLength m 2 + captureLength m 3 + captureLength m 4 +
     captureLength m 5 + captureLength m 6"

text \<open>
  Two relations between the state after a match and the state before it: the captures are
  the same and the rest of the input is no longer; the lengths of the captures and of the
  rest of the input together have not grown.
\<close>

definition keeps :: "mstate \<Rightarrow> mstate \<Rightarrow> bool" where
  "keeps b a = (snd b = snd a \<and> length (fst b) \<le> length (fst a))"

definition noLonger :: "mstate \<Rightarrow> mstate \<Rightarrow> bool" where
  "noLonger b a =
     (capturedLength (snd b) + length (fst b) \<le> capturedLength (snd a) + length (fst a))"

text \<open>
  Subtags in the case that the constructor gives them: passing them to the constructor
  again changes nothing.
\<close>

fun normal :: "subtags \<Rightarrow> bool" where
  "normal (l, e, s, r, v, x) =
     (toLowerCase l = l \<and> transform e toLowerCase = e \<and> transform s titleCase = s \<and>
      transform r toUpperCase = r \<and> transform v toLowerCase = v \<and>
      transform x toLowerCase = x)"

fun unifiedTagOfTuple :: "subtags \<Rightarrow> string" where
  "unifiedTagOfTuple (l, e, s, r, v, x) = unifiedTagOf l e s r v x"

section \<open>The registry keeps every chain of parents finite\<close>

lemma length_toLowerCase [simp]: "length (toLowerCase s) = length s"
  by (simp add: toLowerCase_def)

lemma length_toUpperCase [simp]: "length (toUpperCase s) = length s"
  by (simp add: toUpperCase_def)

lemma length_titleCase [simp]: "length (titleCase s) = length s"
  by (cases s) simp_all

lemma unifiedSubtag_falsy [simp]: "\<not> truthy t \<Longrightarrow> unifiedSubtag t = []"
  by (auto simp: truthy_def unifiedSubtag_def split: option.splits)

lemma unifiedSubtag_truthy: "truthy t \<Longrightarrow> 0 < length (unifiedSubtag t)"
  by (auto simp: truthy_def unifiedSubtag_def split: option.splits)

lemma length_unifiedSubtag_transform:
  assumes "\<And>s. length (f s) = length s"
  shows "length (unifiedSubtag (transform t f)) = length (unifiedSubtag t)"
proof -
  have "f s = [] \<longleftrightarrow> s = []" for s
    using assms [of s] by (metis length_0_conv)
  with assms show ?thesis
    by (auto simp: unifiedSubtag_def transform_def split: option.splits)
qed

lemma unifiedSubtag_None [simp]: "unifiedSubtag None = []"
  by (simp add: unifiedSubtag_def)

lemma keyLength_LanguageTagImpl:
  "keyLength (LanguageTagImpl n l e s r v x) = length (unifiedTagOf l e s r v x)"
  by (simp add: keyLength_def LanguageTagImpl_def Let_def unifiedTagOf_def
      length_unifiedSubtag_transform)

lemma update_absent: "map_of al k = None \<Longrightarrow> AList.update k v al = al @ [(k, v)]"
  by (induction al) (auto split: if_splits)

lemma fromSubTags_registryOk:
  assumes "registryOk rg" and "fromSubTags l e s r v x rg = (p, rg')"
  shows "keyLength p \<le> length (unifiedTagOf l e s r v x) \<and> registryOk rg'"
proof (cases "map_of (instances rg) (unifiedTagOf l e s r v x)")
  case None
  with assms show ?thesis
    by (auto simp: fromSubTags_def Let_def registryOk_def update_absent
        keyLength_LanguageTagImpl)
next
  case (Some existing)
  then have "(unifiedTagOf l e s r v x, existing) \<in> set (instances rg)"
    by (rule map_of_SomeD)
  with assms Some show ?thesis
    by (auto simp: fromSubTags_def Let_def registryOk_def list_all_iff)
qed

lemma parent_shorter:
  assumes "registryOk rg" and "parent t rg = (Some p, rg')"
  shows "keyLength p < keyLength t \<and> registryOk rg'"
proof -
  let ?l = "language t" and ?e = "extendedLanguage t" and ?s = "script t"
  and ?r = "region t" and ?v = "variant t" and ?x = "extension t"
  consider (x) "truthy ?x"
    | (v) "\<not> truthy ?x" "truthy ?v"
    | (r) "\<not> truthy ?x" "\<not> truthy ?v" "truthy ?r"
    | (s) "\<not> truthy ?x" "\<not> truthy ?v" "\<not> truthy ?r" "truthy ?s"
    | (e) "\<not> truthy ?x" "\<not> truthy ?v" "\<not> truthy ?r" "\<not> truthy ?s" "truthy ?e"
    | (n) "\<not> truthy ?x" "\<not> truthy ?v" "\<not> truthy ?r" "\<not> truthy ?s" "\<not> truthy ?e"
    by blast
  then show ?thesis
  proof cases
    case x
    with assms(2) have "fromSubTags ?l ?e ?s ?r ?v None rg = (p, rg')"
      by (auto simp: parent_def withoutExtension_def apfst_def map_prod_def split: prod.splits)
    from fromSubTags_registryOk [OF assms(1) this] unifiedSubtag_truthy [OF x]
    show ?thesis by (simp add: keyLength_def unifiedTagOf_def del: length_greater_0_conv)
  next
    case v
    with assms(2) have "fromSubTags ?l ?e ?s ?r None None rg = (p, rg')"
      by (auto simp: parent_def withoutVariant_def apfst_def map_prod_def split: prod.splits)
    from fromSubTags_registryOk [OF assms(1) this] unifiedSubtag_truthy [OF v(2)] v(1)
    show ?thesis by (simp add: keyLength_def unifiedTagOf_def del: length_greater_0_conv)
  next
    case r
    with assms(2) have "fromSubTags ?l ?e ?s None None None rg = (p, rg')"
      by (auto simp: parent_def withoutRegion_def apfst_def map_prod_def split: prod.splits)
    from fromSubTags_registryOk [OF assms(1) this] unifiedSubtag_truthy [OF r(3)] r(1,2)
    show ?thesis by (simp add: keyLength_def unifiedTagOf_def del: length_greater_0_conv)
  next
    case s
    with assms(2) have "fromSubTags ?l ?e None None None None rg = (p, rg')"
      by (auto simp: parent_def withoutScript_def apfst_def map_prod_def split: prod.splits)
    from fromSubTags_registryOk [OF assms(1) this] unifiedSubtag_truthy [OF s(4)] s(1,2,3)
    show ?thesis by (simp add: keyLength_def unifiedTagOf_def del: length_greater_0_conv)
  next
    case e
    with assms(2) have "fromSubTags ?l None None None None None rg = (p, rg')"
      by (auto simp: parent_def withoutExtendedLanguage_def apfst_def map_prod_def
          split: prod.splits)
    from fromSubTags_registryOk [OF assms(1) this] unifiedSubtag_truthy [OF e(5)] e(1,2,3,4)
    show ?thesis by (simp add: keyLength_def unifiedTagOf_def del: length_greater_0_conv)
  next
    case n
    with assms(2) show ?thesis by (simp add: parent_def)
  qed
qed

lemma parent_none_registry: "parent t rg = (None, rg') \<Longrightarrow> rg' = rg"
  by (auto simp: parent_def apfst_def map_prod_def split: if_splits prod.splits)

lemma chainOf_exists:
  "registryOk rg \<Longrightarrow> \<exists>ts rg'. chainOf (Some t) rg ts rg' \<and> registryOk rg'"
proof (induction "keyLength t" arbitrary: t rg rule: less_induct)
  case less
  obtain p rg1 where par: "parent t rg = (p, rg1)" by (cases "parent t rg")
  show ?case
  proof (cases p)
    case None
    with par have "rg1 = rg" by (auto dest: parent_none_registry)
    with par None have "chainOf (Some t) rg ([] @ [t]) rg"
      by (intro chain_some) (simp add: chain_none)
    with less.prems show ?thesis by blast
  next
    case (Some q)
    with par less.prems have "keyLength q < keyLength t" "registryOk rg1"
      using parent_shorter by blast+
    from less.hyps [OF this] obtain ts rg' where "chainOf (Some q) rg1 ts rg'" "registryOk rg'"
      by blast
    with par Some have "chainOf (Some t) rg (ts @ [t]) rg'" "registryOk rg'"
      by (auto intro: chain_some)
    then show ?thesis by blast
  qed
qed

lemma buildRecursive_chain:
  "chainOf t rg ts rg' \<Longrightarrow> buildRecursive this base req t rg = Some (overlay this req base ts, rg')"
proof (induction rule: chainOf.induct)
  case (chain_none rg)
  show ?case by (subst buildRecursive.simps) (simp add: overlay_def)
next
  case (chain_some t rg ts rg')
  show ?case
    by (subst buildRecursive.simps) (simp add: chain_some.IH overlay_def split: option.splits)
qed

section \<open>Parsing\<close>

text \<open>
  C1. \<open>parse\<close> is claimed to return a tag exactly for the strings of the grammar of the
  specification, among them a region of a dash and three digits such as \<open>en-419\<close> and a
  variant of five to eight letters or digits. The pattern of the code differs: from the
  empty registry, \<open>en-419\<close> and \<open>sl-rozaj1\<close> are in the grammar and are refused with the
  invalid-tag error, while \<open>en419\<close> is not in the grammar and is accepted, its region read
  as \<open>19\<close>.
\<close>

theorem parse_differs_from_grammar:
  "languageTag ''en-419'' emptyRegistry = Inl (InvalidLanguageTag ''en-419'') \<and>
   matchesGrammar ''en-419'' \<and>
   languageTag ''sl-rozaj1'' emptyRegistry = Inl (InvalidLanguageTag ''sl-rozaj1'') \<and>
   matchesGrammar ''sl-rozaj1'' \<and>
   map_sum id (\<lambda>r. (tag (fst r), region (fst r))) (languageTag ''en419'' emptyRegistry) =
     Inr (''en-19'', Some ''19'') \<and>
   \<not> matchesGrammar ''en419''"
  by code_simp

section \<open>Equality of tags\<close>

text \<open>
  C2. The score of two tags is claimed to be 1 exactly when they agree on every subtag,
  absent ones included. The tag \<open>de\<close> against itself has 63 points of 32 possible ones:
  a subtag that both sides lack adds its weight to the points and not to the possible
  points.
\<close>

theorem equality_of_bare_language_exceeds_one:
  "map_sum id (\<lambda>r. (points (fst r) (fst r), possiblePoints (fst r) (fst r),
                     equality (fst r) (fst r)))
     (languageTag ''de'' emptyRegistry) = Inr (63, 32, 63 / 32)"
  by code_simp

section \<open>Interning\<close>

text \<open>
  C6. Two requests with the same subtags are claimed to yield the same object. The string
  \<open>en419\<close> and the parent of the tag of \<open>en419-abcde\<close> both ask for language \<open>en\<close> with
  region \<open>19\<close>; the first is filed under the key \<open>en419\<close>, the second under \<open>en-19\<close>, and
  they are two objects, the first and the third allocated, with the same tag and the
  same subtags.
\<close>

theorem same_subtags_two_objects:
  "map_option (\<lambda>r. (fst r = snd r, oid (fst r), oid (snd r), tag (fst r), tag (snd r),
                     subtagsOf (fst r) = subtagsOf (snd r))) internedTwice =
   Some (False, 0, 2, ''en-19'', ''en-19'', True)"
  by code_simp

section \<open>Picking the best match\<close>

lemma equality_nonneg: "0 \<le> equality a b"
  by (simp add: equality_def)

lemma pick_fold:
  "(if \<forall>c \<in> set cs. equality t c \<le> fst acc
    then foldl (pickStep t) acc cs = acc
    else \<exists>pre c post. cs = pre @ c # post \<and>
           foldl (pickStep t) acc cs = (equality t c, Some c) \<and>
           fst acc < equality t c \<and>
           (\<forall>x \<in> set pre. equality t x < equality t c) \<and>
           (\<forall>x \<in> set post. equality t x \<le> equality t c))"
proof (induction cs arbitrary: acc)
  case Nil
  show ?case by simp
next
  case (Cons x xs)
  show ?case
  proof (cases "fst acc < equality t x")
    case True
    then have step: "pickStep t acc x = (equality t x, Some x)"
      by (simp add: pickStep_def)
    show ?thesis
    proof (cases "\<forall>c \<in> set xs. equality t c \<le> equality t x")
      case all: True
      with Cons.IH [of "(equality t x, Some x)"]
      have "foldl (pickStep t) (equality t x, Some x) xs = (equality t x, Some x)"
        by simp
      with True all step have
        "x # xs = [] @ x # xs \<and> foldl (pickStep t) acc (x # xs) = (equality t x, Some x) \<and>
         fst acc < equality t x \<and> (\<forall>y \<in> set []. equality t y < equality t x) \<and>
         (\<forall>y \<in> set xs. equality t y \<le> equality t x)"
        by simp
      then have "\<exists>pre c post. x # xs = pre @ c # post \<and>
           foldl (pickStep t) acc (x # xs) = (equality t c, Some c) \<and>
           fst acc < equality t c \<and>
           (\<forall>y \<in> set pre. equality t y < equality t c) \<and>
           (\<forall>y \<in> set post. equality t y \<le> equality t c)"
        by blast
      with True show ?thesis by auto
    next
      case some: False
      with Cons.IH [of "(equality t x, Some x)"]
      obtain pre c post where split: "xs = pre @ c # post"
        and res: "foldl (pickStep t) (equality t x, Some x) xs = (equality t c, Some c)"
        and gt: "equality t x < equality t c"
        and pre: "\<forall>y \<in> set pre. equality t y < equality t c"
        and post: "\<forall>y \<in> set post. equality t y \<le> equality t c"
        by auto
      from split res gt pre post True step have
        "x # xs = (x # pre) @ c # post \<and>
         foldl (pickStep t) acc (x # xs) = (equality t c, Some c) \<and>
         fst acc < equality t c \<and> (\<forall>y \<in> set (x # pre). equality t y < equality t c) \<and>
         (\<forall>y \<in> set post. equality t y \<le> equality t c)"
        by auto
      then have "\<exists>pre c post. x # xs = pre @ c # post \<and>
           foldl (pickStep t) acc (x # xs) = (equality t c, Some c) \<and>
           fst acc < equality t c \<and>
           (\<forall>y \<in> set pre. equality t y < equality t c) \<and>
           (\<forall>y \<in> set post. equality t y \<le> equality t c)"
        by blast
      with True show ?thesis by auto
    qed
  next
    case False
    then have step: "pickStep t acc x = acc"
      by (simp add: pickStep_def)
    show ?thesis
    proof (cases "\<forall>c \<in> set xs. equality t c \<le> fst acc")
      case True
      with Cons.IH [of acc] step False show ?thesis by auto
    next
      case some: False
      with Cons.IH [of acc]
      obtain pre c post where split: "xs = pre @ c # post"
        and res: "foldl (pickStep t) acc xs = (equality t c, Some c)"
        and gt: "fst acc < equality t c"
        and pre: "\<forall>y \<in> set pre. equality t y < equality t c"
        and post: "\<forall>y \<in> set post. equality t y \<le> equality t c"
        by auto
      from split res gt pre post False step have
        "x # xs = (x # pre) @ c # post \<and>
         foldl (pickStep t) acc (x # xs) = (equality t c, Some c) \<and>
         fst acc < equality t c \<and> (\<forall>y \<in> set (x # pre). equality t y < equality t c) \<and>
         (\<forall>y \<in> set post. equality t y \<le> equality t c)"
        by auto
      then have "\<exists>pre c post. x # xs = pre @ c # post \<and>
           foldl (pickStep t) acc (x # xs) = (equality t c, Some c) \<and>
           fst acc < equality t c \<and>
           (\<forall>y \<in> set pre. equality t y < equality t c) \<and>
           (\<forall>y \<in> set post. equality t y \<le> equality t c)"
        by blast
      with some show ?thesis by auto
    qed
  qed
qed

lemma pick_none: "pickBestMatching t cs = None \<longleftrightarrow> (\<forall>c \<in> set cs. equality t c = 0)"
proof -
  have eq0: "(\<forall>c \<in> set cs. equality t c \<le> 0) \<longleftrightarrow> (\<forall>c \<in> set cs. equality t c = 0)"
    using equality_nonneg by (auto simp: order_class.order_eq_iff)
  from pick_fold [of cs t "(0, None)"] show ?thesis
    unfolding pickBestMatching_def using eq0 by (auto split: if_splits)
qed

lemma pick_some:
  assumes "pickBestMatching t cs = Some c"
  shows "0 < equality t c \<and>
         (\<exists>pre post. cs = pre @ c # post \<and>
            (\<forall>x \<in> set pre. equality t x < equality t c) \<and>
            (\<forall>x \<in> set post. equality t x \<le> equality t c))"
proof (cases "\<forall>c \<in> set cs. equality t c \<le> 0")
  case True
  with pick_fold [of cs t "(0, None)"] have "foldl (pickStep t) (0, None) cs = (0, None)"
    by simp
  with assms show ?thesis by (simp add: pickBestMatching_def)
next
  case False
  with pick_fold [of cs t "(0, None)"]
  obtain pre d post where split: "cs = pre @ d # post"
    and res: "foldl (pickStep t) (0, None) cs = (equality t d, Some d)"
    and gt: "0 < equality t d"
    and pre: "\<forall>y \<in> set pre. equality t y < equality t d"
    and post: "\<forall>y \<in> set post. equality t y \<le> equality t d"
    by auto
  from res assms have "d = c" by (simp add: pickBestMatching_def)
  with split gt pre post show ?thesis by blast
qed

text \<open>
  C4. \<open>pickBestMatching\<close> returns nothing exactly when every candidate scores 0. A
  candidate that it returns scores above 0, every candidate before it in the list scores
  strictly less and every candidate after it scores at most as much: it is the first of
  the candidates with the highest score. Requested \<open>de-CH-1901\<close> picks \<open>de\<close> among \<open>de\<close>,
  \<open>fr-CH\<close> and \<open>sp\<close>; requested \<open>it\<close> picks nothing.
\<close>

theorem pickBestMatching_first_highest:
  "(pickBestMatching t cs = None \<longleftrightarrow> (\<forall>c \<in> set cs. equality t c = 0)) \<and>
   (\<forall>c. pickBestMatching t cs = Some c \<longrightarrow>
      0 < equality t c \<and>
      (\<exists>pre post. cs = pre @ c # post \<and>
         (\<forall>x \<in> set pre. equality t x < equality t c) \<and>
         (\<forall>x \<in> set post. equality t x \<le> equality t c))) \<and>
   pickedTag ''de-CH-1901'' [''de'', ''fr-CH'', ''sp''] = Some (Some ''de'') \<and>
   pickedTag ''it'' [''de'', ''fr-CH'', ''sp''] = Some None"
proof -
  have "pickedTag ''de-CH-1901'' [''de'', ''fr-CH'', ''sp''] = Some (Some ''de'')"
    by code_simp
  moreover have "pickedTag ''it'' [''de'', ''fr-CH'', ''sp''] = Some None"
    by code_simp
  ultimately show ?thesis
    using pick_none [of t cs] pick_some [of t cs] by blast
qed

text \<open>
  C4, at the example tags. Requested \<open>de-CH-1901\<close>, the first of the example tags, picks \<open>de\<close>, the first of the
  candidates \<open>de\<close>, \<open>fr-CH\<close> and \<open>sp\<close>; requested \<open>it\<close> picks nothing, every candidate
  scoring 0.
\<close>

theorem pickBestMatching_first_highest_witness:
  "pickBestMatching (exampleTags ! 0) (drop 2 exampleTags) = Some (exampleTags ! 2) \<and>
   0 < equality (exampleTags ! 0) (exampleTags ! 2) \<and>
   (\<exists>pre post. drop 2 exampleTags = pre @ (exampleTags ! 2) # post \<and>
      (\<forall>x \<in> set pre. equality (exampleTags ! 0) x < equality (exampleTags ! 0) (exampleTags ! 2)) \<and>
      (\<forall>x \<in> set post. equality (exampleTags ! 0) x \<le> equality (exampleTags ! 0) (exampleTags ! 2))) \<and>
   pickBestMatching (exampleTags ! 1) (drop 2 exampleTags) = None \<and>
   list_all (\<lambda>c. equality (exampleTags ! 1) c = 0) (drop 2 exampleTags)"
proof -
  have 1: "pickBestMatching (exampleTags ! 0) (drop 2 exampleTags) = Some (exampleTags ! 2)"
    by code_simp
  have 2: "pickBestMatching (exampleTags ! 1) (drop 2 exampleTags) = None"
    by code_simp
  from 1 2
    pickBestMatching_first_highest [of "exampleTags ! 0" "drop 2 exampleTags"]
    pickBestMatching_first_highest [of "exampleTags ! 1" "drop 2 exampleTags"]
  show ?thesis unfolding list_all_iff by blast
qed

section \<open>Parents\<close>

lemma unifiedSubtag_norm:
  "unifiedSubtag (if truthy t then t else None) = unifiedSubtag t"
  by (auto simp: truthy_def unifiedSubtag_def split: option.splits)

lemma transform_falsy [simp]: "\<not> truthy t \<Longrightarrow> transform t f = None"
  by (auto simp: truthy_def transform_def split: option.splits)

lemma transform_None: "transform None f = None"
  by (simp add: transform_def)

lemma fromSubTags_falsy:
  "\<not> truthy e \<Longrightarrow> fromSubTags l e s r v x rg = fromSubTags l None s r v x rg"
  "\<not> truthy s \<Longrightarrow> fromSubTags l e s r v x rg = fromSubTags l e None r v x rg"
  "\<not> truthy r \<Longrightarrow> fromSubTags l e s r v x rg = fromSubTags l e s None v x rg"
  "\<not> truthy v \<Longrightarrow> fromSubTags l e s r v x rg = fromSubTags l e s r None x rg"
  "\<not> truthy x \<Longrightarrow> fromSubTags l e s r v x rg = fromSubTags l e s r v None rg"
  by (auto simp: fromSubTags_def unifiedTagOf_def LanguageTagImpl_def Let_def
      transform_None split: option.splits)

lemma parent_generalize:
  "parent t rg =
     (case generalize (subtagsOf t) of
        None \<Rightarrow> (None, rg)
      | Some g \<Rightarrow> apfst Some (fromSubtagTuple g rg))"
proof -
  let ?e = "extendedLanguage t" and ?s = "script t"
  and ?r = "region t" and ?v = "variant t" and ?x = "extension t"
  consider (x) "truthy ?x"
    | (v) "\<not> truthy ?x" "truthy ?v"
    | (r) "\<not> truthy ?x" "\<not> truthy ?v" "truthy ?r"
    | (s) "\<not> truthy ?x" "\<not> truthy ?v" "\<not> truthy ?r" "truthy ?s"
    | (e) "\<not> truthy ?x" "\<not> truthy ?v" "\<not> truthy ?r" "\<not> truthy ?s" "truthy ?e"
    | (n) "\<not> truthy ?x" "\<not> truthy ?v" "\<not> truthy ?r" "\<not> truthy ?s" "\<not> truthy ?e"
    by blast
  then show ?thesis
  proof cases
    case x
    then show ?thesis
      by (simp add: parent_def subtagsOf_def withoutExtension_def)
  next
    case v
    then show ?thesis
      using fromSubTags_falsy(5) [OF v(1)]
      by (simp add: parent_def subtagsOf_def withoutVariant_def)
  next
    case r
    then show ?thesis
      using fromSubTags_falsy(5) [OF r(1)] fromSubTags_falsy(4) [OF r(2)]
      by (simp add: parent_def subtagsOf_def withoutRegion_def)
  next
    case s
    then show ?thesis
      using fromSubTags_falsy(5) [OF s(1)] fromSubTags_falsy(4) [OF s(2)]
        fromSubTags_falsy(3) [OF s(3)]
      by (simp add: parent_def subtagsOf_def withoutScript_def)
  next
    case e
    then show ?thesis
      using fromSubTags_falsy(5) [OF e(1)] fromSubTags_falsy(4) [OF e(2)]
        fromSubTags_falsy(3) [OF e(3)] fromSubTags_falsy(2) [OF e(4)]
      by (simp add: parent_def subtagsOf_def withoutExtendedLanguage_def)
  next
    case n
    then show ?thesis
      by (simp add: parent_def subtagsOf_def)
  qed
qed

lemma parent_none_iff:
  "fst (parent t rg) = None \<longleftrightarrow>
     \<not> truthy (extension t) \<and> \<not> truthy (variant t) \<and> \<not> truthy (region t) \<and>
     \<not> truthy (script t) \<and> \<not> truthy (extendedLanguage t)"
  by (simp add: parent_def)

text \<open>
  C5. \<open>parent()\<close> asks the registry for the subtags of the tag without the most specific
  one that is present: the extension, else the variant, else the region, else the script,
  else the extended language. It returns nothing exactly when none of the five is present.
  From \<open>zh-gan-Hans-US-nedis-x-twain\<close> the successive parents are \<open>zh-gan-Hans-US-nedis\<close>,
  \<open>zh-gan-Hans-US\<close>, \<open>zh-gan-Hans\<close>, \<open>zh-gan\<close>, \<open>zh\<close>, and then none.
\<close>

theorem parent_drops_most_specific:
  "parent t rg =
     (case generalize (subtagsOf t) of
        None \<Rightarrow> (None, rg)
      | Some g \<Rightarrow> apfst Some (fromSubtagTuple g rg)) \<and>
   (fst (parent t rg) = None \<longleftrightarrow>
      \<not> truthy (extension t) \<and> \<not> truthy (variant t) \<and> \<not> truthy (region t) \<and>
      \<not> truthy (script t) \<and> \<not> truthy (extendedLanguage t)) \<and>
   parentTagsOf 6 ''zh-gan-Hans-US-nedis-x-twain'' =
     Some [Some ''zh-gan-Hans-US-nedis'', Some ''zh-gan-Hans-US'', Some ''zh-gan-Hans'',
           Some ''zh-gan'', Some ''zh'', None]"
proof -
  have "parentTagsOf 6 ''zh-gan-Hans-US-nedis-x-twain'' =
     Some [Some ''zh-gan-Hans-US-nedis'', Some ''zh-gan-Hans-US'', Some ''zh-gan-Hans'',
           Some ''zh-gan'', Some ''zh'', None]"
    by code_simp
  then show ?thesis
    using parent_generalize [of t rg] parent_none_iff [of t rg] by blast
qed

section \<open>Resolving messages\<close>

lemma map_of_spread:
  "map_of (spread a b) k =
     (case map_of (rev b) k of Some v \<Rightarrow> Some v | None \<Rightarrow> map_of a k)"
  unfolding spread_def
  by (induction b arbitrary: a) (auto simp: update_conv' map_add_def split: option.splits)

lemma chainOf_None: "chainOf None rg ts rg' \<Longrightarrow> ts = [] \<and> rg' = rg"
  by (cases rule: chainOf.cases) auto

lemma chainOf_any:
  "registryOk rg \<Longrightarrow> \<exists>ts rg'. chainOf t rg ts rg' \<and> registryOk rg'"
  using chainOf_exists chain_none by (cases t) blast+

lemma messagesFor_miss:
  assumes "case cache of None \<Rightarrow> True | Some (l, m) \<Rightarrow> l \<noteq> lang"
  shows "messagesFor build lang (cache, w) =
           (case build lang w of
              None \<Rightarrow> None
            | Some (messages, w') \<Rightarrow> Some (messages, Some (lang, messages), w'))"
  using assms by (auto simp: messagesFor_def split: option.splits)

lemma translatorMessagesFor_layers:
  assumes "registryOk rg"
    and "case messageCache this of None \<Rightarrow> True | Some (l, m) \<Rightarrow> l \<noteq> lang"
  shows "\<exists>ts rg'.
           chainOf (pickBestMatching lang (supportedLanguages this)) rg ts rg' \<and>
           translatorMessagesFor this lang rg =
             Some (overlay this lang (defaultMessages this lang) ts,
                   this\<lparr>messageCache :=
                          Some (lang, overlay this lang (defaultMessages this lang) ts)\<rparr>,
                   rg')"
proof -
  from chainOf_any [OF assms(1)] obtain ts rg'
    where ch: "chainOf (pickBestMatching lang (supportedLanguages this)) rg ts rg'"
    by blast
  from buildRecursive_chain [OF ch]
  have "buildMessages this lang rg = Some (overlay this lang (defaultMessages this lang) ts, rg')"
    by (simp add: buildMessages_def)
  with messagesFor_miss [OF assms(2), of "buildMessages this" rg]
  have "translatorMessagesFor this lang rg =
          Some (overlay this lang (defaultMessages this lang) ts,
                this\<lparr>messageCache :=
                       Some (lang, overlay this lang (defaultMessages this lang) ts)\<rparr>,
                rg')"
    by (simp add: translatorMessagesFor_def)
  with ch show ?thesis by blast
qed

lemma overlay_Nil: "overlay this lang base [] = base"
  by (simp add: overlay_def)

lemma overlay_snoc:
  "overlay this lang base (ts @ [t]) =
     (case map_of (translationMap this) t of
        None \<Rightarrow> overlay this lang base ts
      | Some translation \<Rightarrow> spread (overlay this lang base ts) (translation lang))"
  unfolding overlay_def by simp

text \<open>
  The layers in terms of objects. In a registry in which no tag is filed under a key
  shorter than its own (the empty registry is one, and requesting a tag, taking a parent
  and adding a language keep it one), and with a cache that does not hold the requested
  tag, \<open>messagesFor\<close> returns the default
  messages of the requested tag overlaid with the layers of the generalization chain of
  the best matching supported language, from the most generic ancestor down to the match,
  the chain being the objects that \<open>parent()\<close> returns and a layer being registered for
  an object of the chain when it is registered for that very object; without a match the chain is empty and the result is the default messages. A layer with
  a registered translation overwrites the keys that the translation has, in the order of
  the chain, and a tag without one leaves the messages as they are. In the example,
  \<open>de-CH\<close> and \<open>de-CH-1901\<close> both give \<open>OK\<close>, \<open>Abbrechen\<close> and the Swiss greeting, and \<open>fr\<close>
  gives the default set.
\<close>

lemma messagesFor_overlays_chain:
  "(registryOk rg \<and> (case messageCache this of None \<Rightarrow> True | Some (l, m) \<Rightarrow> l \<noteq> lang) \<longrightarrow>
      (\<exists>ts rg'.
          chainOf (pickBestMatching lang (supportedLanguages this)) rg ts rg' \<and>
          (pickBestMatching lang (supportedLanguages this) = None \<longrightarrow> ts = []) \<and>
          translatorMessagesFor this lang rg =
            Some (overlay this lang (defaultMessages this lang) ts,
                  this\<lparr>messageCache :=
                         Some (lang, overlay this lang (defaultMessages this lang) ts)\<rparr>,
                  rg'))) \<and>
   overlay this lang base [] = base \<and>
   overlay this lang base (ts @ [t]) =
     (case map_of (translationMap this) t of
        None \<Rightarrow> overlay this lang base ts
      | Some translation \<Rightarrow> spread (overlay this lang base ts) (translation lang)) \<and>
   map_of (spread a b) k =
     (case map_of (rev b) k of Some v \<Rightarrow> Some v | None \<Rightarrow> map_of a k) \<and>
   exampleMessagesFor ''de-CH'' =
     Some [(''ok'', ''OK''), (''cancel'', ''Abbrechen''), (''welcome'', ''Gr'' @ [CHR 0xFC] @ ''ezi'')] \<and>
   exampleMessagesFor ''de-CH-1901'' =
     Some [(''ok'', ''OK''), (''cancel'', ''Abbrechen''), (''welcome'', ''Gr'' @ [CHR 0xFC] @ ''ezi'')] \<and>
   exampleMessagesFor ''fr'' =
     Some [(''ok'', ''OK''), (''cancel'', ''Cancel''), (''welcome'', ''Welcome'')]"
proof -
  have 1: "exampleMessagesFor ''de-CH'' =
     Some [(''ok'', ''OK''), (''cancel'', ''Abbrechen''), (''welcome'', ''Gr'' @ [CHR 0xFC] @ ''ezi'')]"
    by code_simp
  have 2: "exampleMessagesFor ''de-CH-1901'' =
     Some [(''ok'', ''OK''), (''cancel'', ''Abbrechen''), (''welcome'', ''Gr'' @ [CHR 0xFC] @ ''ezi'')]"
    by code_simp
  have 3: "exampleMessagesFor ''fr'' =
     Some [(''ok'', ''OK''), (''cancel'', ''Cancel''), (''welcome'', ''Welcome'')]"
    by code_simp
  have 4: "registryOk rg \<and> (case messageCache this of None \<Rightarrow> True | Some (l, m) \<Rightarrow> l \<noteq> lang) \<longrightarrow>
      (\<exists>ts rg'.
          chainOf (pickBestMatching lang (supportedLanguages this)) rg ts rg' \<and>
          (pickBestMatching lang (supportedLanguages this) = None \<longrightarrow> ts = []) \<and>
          translatorMessagesFor this lang rg =
            Some (overlay this lang (defaultMessages this lang) ts,
                  this\<lparr>messageCache :=
                         Some (lang, overlay this lang (defaultMessages this lang) ts)\<rparr>,
                  rg'))"
    using translatorMessagesFor_layers [where rg = rg and this = this and lang = lang]
      chainOf_None by metis
  show ?thesis
    using 1 2 3 4 overlay_Nil [of this lang base] overlay_snoc [of this lang base ts t]
      map_of_spread [of a b k]
    by blast
qed

text \<open>
  The example translator, asked for \<open>de-CH-1901\<close> after its tags are registered, meets the
  conditions: there is a best match and the messages are the layers of its chain.
\<close>

lemma messagesFor_overlays_chain_at_example:
  "case exampleState of
     None \<Rightarrow> False
   | Some (this, lang, rg) \<Rightarrow>
       registryOk rg \<and> messageCache this = None \<and>
       pickBestMatching lang (supportedLanguages this) \<noteq> None \<and>
       (\<exists>ts rg'.
          chainOf (pickBestMatching lang (supportedLanguages this)) rg ts rg' \<and>
          translatorMessagesFor this lang rg =
            Some (overlay this lang (defaultMessages this lang) ts,
                  this\<lparr>messageCache :=
                         Some (lang, overlay this lang (defaultMessages this lang) ts)\<rparr>,
                  rg'))"
proof -
  have ev: "case exampleState of
          None \<Rightarrow> False
        | Some (this, lang, rg) \<Rightarrow>
            registryOk rg \<and> messageCache this = None \<and>
            pickBestMatching lang (supportedLanguages this) \<noteq> None"
    by code_simp
  then obtain this lang rg where st: "exampleState = Some (this, lang, rg)"
    by (cases exampleState) auto
  from ev have hyp: "registryOk rg \<and> messageCache this = None \<and>
    pickBestMatching lang (supportedLanguages this) \<noteq> None"
    by (subst (asm) st) simp
  then have pre: "registryOk rg \<and>
    (case messageCache this of None \<Rightarrow> True | Some (l, m) \<Rightarrow> l \<noteq> lang)"
    by simp
  from conjunct1 [OF messagesFor_overlays_chain [where rg = rg and this = this and lang = lang]]
    pre
  obtain ts rg' where
    "chainOf (pickBestMatching lang (supportedLanguages this)) rg ts rg'"
    "translatorMessagesFor this lang rg =
       Some (overlay this lang (defaultMessages this lang) ts,
             this\<lparr>messageCache :=
                    Some (lang, overlay this lang (defaultMessages this lang) ts)\<rparr>,
             rg')"
    by blast
  then have "\<exists>ts rg'.
          chainOf (pickBestMatching lang (supportedLanguages this)) rg ts rg' \<and>
          translatorMessagesFor this lang rg =
            Some (overlay this lang (defaultMessages this lang) ts,
                  this\<lparr>messageCache :=
                         Some (lang, overlay this lang (defaultMessages this lang) ts)\<rparr>,
                  rg')"
    by blast
  with hyp show ?thesis by (subst st) simp
qed

text \<open>
  C3. \<open>messagesFor\<close> is claimed to overlay the registered translations of the
  generalization chain of the best match. With a layer for \<open>en419\<close>, whose tag is \<open>en-19\<close>,
  and a layer for \<open>en419-abcde\<close>, the request for \<open>en419-abcde\<close> has the best match
  \<open>en-19-abcde\<close>, and its parent has the tag \<open>en-19\<close>; yet the result keeps the default
  message of \<open>k\<close>: the parent is a second object with that tag, and the layer is
  registered under the first. With \<open>en-US\<close> and \<open>en-US-abcde\<close> in their place both layers
  are overlaid.
\<close>

theorem messagesFor_misses_registered_ancestor:
  "layeredLookup ''en419'' ''en419-abcde'' =
     Some ([(''k'', ''default k''), (''j'', ''Y'')], Some ''en-19'', Some ''en-19'') \<and>
   layeredLookup ''en-US'' ''en-US-abcde'' =
     Some ([(''k'', ''X''), (''j'', ''Y'')], Some ''en-US'', Some ''en-US'')"
proof -
  have 1: "layeredLookup ''en419'' ''en419-abcde'' =
     Some ([(''k'', ''default k''), (''j'', ''Y'')], Some ''en-19'', Some ''en-19'')"
    by code_simp
  have 2: "layeredLookup ''en-US'' ''en-US-abcde'' =
     Some ([(''k'', ''X''), (''j'', ''Y'')], Some ''en-US'', Some ''en-US'')"
    by code_simp
  from 1 2 show ?thesis by simp
qed

section \<open>The cache of a message provider\<close>

text \<open>
  C7. After a call of \<open>messagesFor\<close> for a tag has returned, the cache holds that tag with
  the returned object. A second call for the same tag returns the same object and leaves
  the cache and everything else as they are, whatever the building step is: the building
  step is not run. A call for a different tag runs the building step on that tag, returns
  what it builds and puts it in the place of the cache entry.
\<close>

theorem messagesFor_caches_last:
  "messagesFor build lang st = Some (messages, cache, w) \<longrightarrow>
     cache = Some (lang, messages) \<and>
     (\<forall>anyBuild. messagesFor anyBuild lang (cache, w) = Some (messages, cache, w)) \<and>
     (\<forall>other. other \<noteq> lang \<longrightarrow>
        messagesFor build other (cache, w) =
          (case build other w of
             None \<Rightarrow> None
           | Some (messages', w') \<Rightarrow> Some (messages', Some (other, messages'), w')))"
  by (auto simp: messagesFor_def split: option.splits if_splits prod.splits)

text \<open>
  C7, with the counting building step. The first call for \<open>de\<close> builds object 0; the
  second call returns object 0 again and the count of builds stays 1; the call for \<open>fr-CH\<close>
  builds object 1 and the cache holds \<open>fr-CH\<close> with it.
\<close>

theorem messagesFor_caches_last_witness:
  "messagesFor countingBuild (exampleTags ! 2) (None, 0) =
     Some ((0, ''de''), Some (exampleTags ! 2, (0, ''de'')), 1) \<and>
   messagesFor countingBuild (exampleTags ! 2) (Some (exampleTags ! 2, (0, ''de'')), 1) =
     Some ((0, ''de''), Some (exampleTags ! 2, (0, ''de'')), 1) \<and>
   exampleTags ! 3 \<noteq> exampleTags ! 2 \<and>
   messagesFor countingBuild (exampleTags ! 3) (Some (exampleTags ! 2, (0, ''de'')), 1) =
     Some ((1, ''fr-CH''), Some (exampleTags ! 3, (1, ''fr-CH'')), 2)"
proof -
  have 1: "messagesFor countingBuild (exampleTags ! 2) (None, 0) =
     Some ((0, ''de''), Some (exampleTags ! 2, (0, ''de'')), 1)"
    by code_simp
  have 2: "exampleTags ! 3 \<noteq> exampleTags ! 2"
    by code_simp
  have 3: "countingBuild (exampleTags ! 3) 1 = Some ((1, ''fr-CH''), 2)"
    by code_simp
  note t = messagesFor_caches_last [of countingBuild "exampleTags ! 2" "(None, 0)"
      "(0, ''de'')" "Some (exampleTags ! 2, (0, ''de''))" 1]
  from t 1 have a: "messagesFor countingBuild (exampleTags ! 2) (Some (exampleTags ! 2, (0, ''de'')), 1) =
     Some ((0, ''de''), Some (exampleTags ! 2, (0, ''de'')), 1)"
    by blast
  from t 1 2 have "messagesFor countingBuild (exampleTags ! 3) (Some (exampleTags ! 2, (0, ''de'')), 1) =
     (case countingBuild (exampleTags ! 3) 1 of
             None \<Rightarrow> None
           | Some (messages', w') \<Rightarrow> Some (messages', Some (exampleTags ! 3, messages'), w'))"
    by blast
  with 3 have b: "messagesFor countingBuild (exampleTags ! 3) (Some (exampleTags ! 2, (0, ''de'')), 1) =
     Some ((1, ''fr-CH''), Some (exampleTags ! 3, (1, ''fr-CH'')), 2)"
    by simp
  from 1 2 a b show ?thesis by blast
qed

section \<open>Supporting a language\<close>

text \<open>
  C9. \<open>supporting\<close> is \<open>partiallySupporting\<close> on the same language string and the same
  messages. Whatever keys the messages have, when the language string yields a tag the
  call returns the translator with that tag mapped to the messages: nothing compares the
  keys with those of the default messages, and no error comes from them.
\<close>

theorem supporting_is_partiallySupporting:
  "supporting this lang translation rg =
     partiallySupporting this (OfString lang) translation rg \<and>
   (\<forall>l rg'. languageTag lang rg = Inr (l, rg') \<longrightarrow>
      supporting this lang translation rg =
        Inr (newTranslatorImpl (defaultMessages this)
               (AList.update l (localizedMessages translation) (translationMap this)), rg'))"
  by (simp add: supporting_def partiallySupporting_def tagOf_def)

text \<open>
  C9, for the default set of three keys and the Swiss set, which has one of them: the
  call for \<open>de\<close> from the empty registry returns a translator.
\<close>

theorem supporting_is_partiallySupporting_witness:
  "languageTag ''de'' emptyRegistry =
     Inr (LanguageTagImpl 0 ''de'' None None None None None,
          \<lparr> instances = [(''de'', LanguageTagImpl 0 ''de'' None None None None None)],
            allocated = 1 \<rparr>) \<and>
   supporting (translate (Plain defaultSet)) ''de'' (Plain swissSet) emptyRegistry =
     Inr (newTranslatorImpl (defaultMessages (translate (Plain defaultSet)))
            (AList.update (LanguageTagImpl 0 ''de'' None None None None None)
               (localizedMessages (Plain swissSet))
               (translationMap (translate (Plain defaultSet)))),
          \<lparr> instances = [(''de'', LanguageTagImpl 0 ''de'' None None None None None)],
            allocated = 1 \<rparr>)"
proof -
  have 1: "languageTag ''de'' emptyRegistry =
     Inr (LanguageTagImpl 0 ''de'' None None None None None,
          \<lparr> instances = [(''de'', LanguageTagImpl 0 ''de'' None None None None None)],
            allocated = 1 \<rparr>)"
    by code_simp
  with supporting_is_partiallySupporting
    [of "translate (Plain defaultSet)" "''de''" "Plain swissSet" emptyRegistry]
  show ?thesis by blast
qed

section \<open>Selecting a message\<close>

lemma optionsFormat_fold:
  "map_of (foldl (\<lambda>optionsFormat option.
              let optionMsg = map_of options option
              in (case optionMsg of
                    Some (Some msg) \<Rightarrow>
                      if msg \<noteq> [] then setProperty optionsFormat option (formatObject lang msg)
                      else optionsFormat
                  | _ \<Rightarrow> optionsFormat)) acc ks) k =
   (if k \<in> set ks \<and> k \<noteq> ''__proto__'' \<and> messageOf options k \<noteq> None
    then map_option (formatObject lang) (messageOf options k)
    else map_of acc k)"
proof (induction ks arbitrary: acc)
  case Nil
  show ?case by simp
next
  case (Cons x ks)
  show ?case
    unfolding foldl_Cons Cons.IH
    by (auto simp: messageOf_def setProperty_def update_conv' Let_def split: option.splits)
qed

lemma map_of_optionsFormatOf:
  "map_of (optionsFormatOf formatObject lang options) k =
     (if k = ''__proto__'' then None else map_option (formatObject lang) (messageOf options k))"
proof -
  have "messageOf options k = None" if "k \<notin> fst ` set options"
  proof -
    from that have "map_of options k = None" by (simp add: map_of_eq_None_iff)
    then show ?thesis by (simp add: messageOf_def)
  qed
  then show ?thesis
    unfolding optionsFormatOf_def optionsFormat_fold by (cases "messageOf options k") auto
qed

lemma other_not_inherited: "''other'' \<notin> set objectPrototype"
  by (simp add: objectPrototype_def)

lemma proto_inherited: "''__proto__'' \<in> set objectPrototype"
  by (simp add: objectPrototype_def)

lemma selectObject_own:
  assumes "selector parameters \<notin> set objectPrototype"
  shows "selectObject formatObject lang selector options parameters =
     (case messageOf options (selector parameters) of
        Some msg \<Rightarrow> Inr (Message (formatObject lang msg parameters))
      | None \<Rightarrow>
          (case messageOf options ''other'' of
             Some msg \<Rightarrow> Inr (Message (formatObject lang msg parameters))
           | None \<Rightarrow> Inl (NoMatchingSelection (selector parameters))))"
proof -
  from assms proto_inherited have ne: "selector parameters \<noteq> ''__proto__''" by auto
  have o: "''other'' \<noteq> ''__proto__''" by simp
  show ?thesis
    using assms other_not_inherited ne
    by (simp add: selectObject_def Let_def getProperty_def map_of_optionsFormatOf
        split: option.splits)
qed

text \<open>
  C8 as it is stated fails at an option with the empty string as its message: with the
  options \<open>a\<close> for the empty string and \<open>other\<close> for \<open>x\<close>, the selection \<open>a\<close> equals a key,
  and the function returns the message of \<open>other\<close> and not the one of \<open>a\<close>.
\<close>

theorem select_skips_empty_message:
  "select plainFormat tagEn [(''a'', Some []), (''other'', Some ''x'')] ''a'' =
     Inr (Message ''x'') \<and>
   select plainFormat tagEn [(''a'', Some []), (''other'', Some ''x'')] ''a'' \<noteq>
     Inr (Message (plainFormat tagEn [] ''a''))"
  by (simp add: select_def selectObject_def optionsFormatOf_def getProperty_def
      setProperty_def objectPrototype_def plainFormat_def Let_def)

text \<open>
  C8, amended. Let the selection string be none of the names that an object literal
  inherits from \<open>Object.prototype\<close>, and let no option be named \<open>__proto__\<close>. Then the
  function returned by \<open>selectObject\<close> renders the message of the option whose key equals
  the selection string when that option has a message other than the empty string;
  otherwise it renders the message of \<open>other\<close> when \<open>other\<close> has a message other than the
  empty string; otherwise it fails with the error that no option matches the selection.
  \<open>select\<close> is \<open>selectObject\<close> with the selection string as the parameters.
\<close>

theorem selectObject_picks_or_falls_back:
  assumes "selector parameters \<notin> set objectPrototype"
    and "''__proto__'' \<notin> fst ` set options"
  shows "selectObject formatObject lang selector options parameters =
     (case messageOf options (selector parameters) of
        Some msg \<Rightarrow> Inr (Message (formatObject lang msg parameters))
      | None \<Rightarrow>
          (case messageOf options ''other'' of
             Some msg \<Rightarrow> Inr (Message (formatObject lang msg parameters))
           | None \<Rightarrow> Inl (NoMatchingSelection (selector parameters)))) \<and>
   select formatObject' lang options = selectObject formatObject' lang (\<lambda>selection. selection) options"
  using selectObject_own [where selector = selector and parameters = parameters] assms(1)
  by (simp add: select_def)

text \<open>
  C8, amended, at the options \<open>error\<close>, \<open>nop\<close> without a message and \<open>other\<close>: the
  selection \<open>error\<close> gives its own message.
\<close>

theorem selectObject_picks_or_falls_back_witness:
  "''error'' \<notin> set objectPrototype \<and>
   ''__proto__'' \<notin> fst ` set [(''error'', Some ''An error occurred''), (''nop'', None),
                               (''other'', Some ''unknown'')] \<and>
   selectObject plainFormat tagEn (\<lambda>selection. selection)
     [(''error'', Some ''An error occurred''), (''nop'', None), (''other'', Some ''unknown'')]
     ''error'' = Inr (Message ''An error occurred'')"
proof -
  have 1: "''error'' \<notin> set objectPrototype"
    by (simp add: objectPrototype_def)
  have 2: "''__proto__'' \<notin> fst ` set [(''error'', Some ''An error occurred''), (''nop'', None),
                               (''other'', Some ''unknown'')]"
    by simp
  note t = selectObject_picks_or_falls_back
    [where selector = "\<lambda>selection. selection" and parameters = "''error''"
       and options = "[(''error'', Some ''An error occurred''), (''nop'', None),
                       (''other'', Some ''unknown'')]"
       and formatObject = plainFormat and lang = tagEn]
  from t 1 2
  have "selectObject plainFormat tagEn (\<lambda>selection. selection)
     [(''error'', Some ''An error occurred''), (''nop'', None), (''other'', Some ''unknown'')]
     ''error'' = Inr (Message ''An error occurred'')"
    by (simp add: messageOf_def plainFormat_def)
  with 1 2 show ?thesis by blast
qed

text \<open>
  C10. An option with the empty string as its message is claimed to make the function
  fall back to \<open>other\<close>, or throw when there is no \<open>other\<close>. With \<open>toString\<close> as the only
  option, its message the empty string, and the selection \<open>toString\<close>, the function does
  neither: the option adds no own property to \<open>optionsFormat\<close>, the read of \<open>toString\<close> finds
  the member inherited from \<open>Object.prototype\<close>, and that member is called.
\<close>

theorem empty_option_under_inherited_name:
  "select formatObject lang [(''toString'', Some [])] ''toString'' =
     Inr (ObjectPrototypeCall ''toString'') \<and>
   selectObject formatObject' lang fst [(''toString'', Some [])] (''toString'', name) =
     Inr (ObjectPrototypeCall ''toString'')"
  by (simp add: select_def selectObject_def optionsFormatOf_def getProperty_def
      setProperty_def objectPrototype_def Let_def)

section \<open>Every operation keeps the registry in order\<close>

lemma repeat_rel:
  assumes step: "\<And>a b. b \<in> set (f a) \<Longrightarrow> R b a"
    and refl: "\<And>a. R a a"
    and trans: "\<And>a b c. R c b \<Longrightarrow> R b a \<Longrightarrow> R c a"
  shows "b \<in> set (repeat f m n a) \<Longrightarrow> R b a"
proof (induction n arbitrary: m a)
  case 0
  then show ?case by (auto simp: refl split: if_splits)
next
  case (Suc n)
  from Suc.prems consider (more) c where "c \<in> set (f a)" "b \<in> set (repeat f (m - 1) n c)"
    | (stop) "b = a"
    by (auto split: if_splits)
  then show ?case
  proof cases
    case more
    from Suc.IH [OF more(2)] step [OF more(1)] show ?thesis by (rule trans)
  next
    case stop
    then show ?thesis by (simp add: refl)
  qed
qed

lemma plus_iter_rel:
  assumes step: "\<And>a b. b \<in> set (f a) \<Longrightarrow> R b a"
    and trans: "\<And>a b c. R c b \<Longrightarrow> R b a \<Longrightarrow> R c a"
  shows "b \<in> set (plus_iter f n a) \<Longrightarrow> R b a"
proof (induction n arbitrary: a)
  case 0
  then show ?case by simp
next
  case (Suc n)
  from Suc.prems obtain c where c: "c \<in> set (f a)"
    and b: "b \<in> set (plus_iter f n c) \<or> b = c"
    by auto
  from b show ?case
  proof
    assume "b \<in> set (plus_iter f n c)"
    from Suc.IH [OF this] step [OF c] show ?thesis by (rule trans)
  next
    assume "b = c"
    with step [OF c] show ?thesis by simp
  qed
qed

lemma keeps_trans: "keeps c b \<Longrightarrow> keeps b a \<Longrightarrow> keeps c a"
  by (simp add: keeps_def)

lemma noLonger_trans: "noLonger c b \<Longrightarrow> noLonger b a \<Longrightarrow> noLonger c a"
  by (simp add: noLonger_def)

lemma keeps_refl: "keeps a a"
  by (simp add: keeps_def)

lemma noLonger_refl: "noLonger a a"
  by (simp add: noLonger_def)

lemma steps_groupless:
  "groupless r \<Longrightarrow> b \<in> set (steps r a) \<Longrightarrow> keeps b a"
proof (induction r arbitrary: a b)
  case (Class cs)
  then show ?case by (cases "fst a") (auto simp: keeps_def split: if_splits)
next
  case (Cat r1 r2)
  from Cat.prems obtain c where "c \<in> set (steps r1 a)" "b \<in> set (steps r2 c)"
    by auto
  moreover from Cat.prems have "groupless r1" "groupless r2" by simp_all
  ultimately have "keeps b c" "keeps c a" using Cat.IH by blast+
  then show ?case by (rule keeps_trans)
next
  case (Alt r1 r2)
  from Alt.prems have "groupless r1" "groupless r2"
    "b \<in> set (steps r1 a) \<or> b \<in> set (steps r2 a)"
    by simp_all
  with Alt.IH show ?case by blast
next
  case (Opt r)
  from Opt.prems have "groupless r" "b = a \<or> b \<in> set (steps r a)"
    by simp_all
  with Opt.IH show ?case by (blast intro: keeps_refl)
next
  case (Repeat m n r)
  from Repeat.prems have "b \<in> set (repeat (steps r) m n a)" by simp
  then show ?case
  proof (rule repeat_rel [where R = keeps, rotated -1])
    show "\<And>a b. b \<in> set (steps r a) \<Longrightarrow> keeps b a"
      using Repeat.IH Repeat.prems(1) by simp
  qed (simp_all add: keeps_def)
next
  case (Plus r)
  from Plus.prems have "b \<in> set (plus_iter (steps r) (length (fst a)) a)" by simp
  then show ?case
  proof (rule plus_iter_rel [where R = keeps, rotated -1])
    show "\<And>a b. b \<in> set (steps r a) \<Longrightarrow> keeps b a"
      using Plus.IH Plus.prems(1) by simp
  qed (simp_all add: keeps_def)
next
  case (Group g r)
  then show ?case by simp
qed

lemma capturedLength_update:
  "capturedLength (m(g \<mapsto> s)) \<le> capturedLength m + length s"
  by (simp add: capturedLength_def captureLength_def)

lemma steps_flat:
  "flat r \<Longrightarrow> b \<in> set (steps r a) \<Longrightarrow> noLonger b a"
proof (induction r arbitrary: a b)
  case (Class cs)
  then show ?case by (cases "fst a") (auto simp: noLonger_def split: if_splits)
next
  case (Cat r1 r2)
  from Cat.prems obtain c where "c \<in> set (steps r1 a)" "b \<in> set (steps r2 c)"
    by auto
  moreover from Cat.prems have "flat r1" "flat r2" by simp_all
  ultimately have "noLonger b c" "noLonger c a" using Cat.IH by blast+
  then show ?case by (rule noLonger_trans)
next
  case (Alt r1 r2)
  from Alt.prems have "flat r1" "flat r2"
    "b \<in> set (steps r1 a) \<or> b \<in> set (steps r2 a)"
    by simp_all
  with Alt.IH show ?case by blast
next
  case (Opt r)
  from Opt.prems have "flat r" "b = a \<or> b \<in> set (steps r a)"
    by simp_all
  with Opt.IH show ?case by (blast intro: noLonger_refl)
next
  case (Repeat m n r)
  from Repeat.prems have "b \<in> set (repeat (steps r) m n a)" by simp
  then show ?case
  proof (rule repeat_rel [where R = noLonger, rotated -1])
    show "\<And>a b. b \<in> set (steps r a) \<Longrightarrow> noLonger b a"
      using Repeat.IH Repeat.prems(1) by simp
  qed (simp_all add: noLonger_def)
next
  case (Plus r)
  from Plus.prems have "b \<in> set (plus_iter (steps r) (length (fst a)) a)" by simp
  then show ?case
  proof (rule plus_iter_rel [where R = noLonger, rotated -1])
    show "\<And>a b. b \<in> set (steps r a) \<Longrightarrow> noLonger b a"
      using Plus.IH Plus.prems(1) by simp
  qed (simp_all add: noLonger_def)
next
  case (Group g r)
  from Group.prems obtain c where c: "c \<in> set (steps r a)"
    and b: "b = (fst c, (snd c)(g \<mapsto> take (length (fst a) - length (fst c)) (fst a)))"
    by auto
  from Group.prems(1) c have k: "keeps c a" by (auto intro: steps_groupless)
  have "capturedLength (snd b) \<le> capturedLength (snd a) + (length (fst a) - length (fst c))"
    using capturedLength_update [of "snd a" g "take (length (fst a) - length (fst c)) (fst a)"]
      k by (simp add: b keeps_def)
  moreover from k have "length (fst c) \<le> length (fst a)" by (simp add: keeps_def)
  moreover have "fst b = fst c" by (simp add: b)
  ultimately have "capturedLength (snd b) + length (fst b) \<le>
      capturedLength (snd a) + length (fst a)"
    by (metis add.assoc add_le_mono1 le_add_diff_inverse2)
  then show ?case by (simp add: noLonger_def)
qed

lemma flat_pattern: "flat pattern"
  by (simp add: pattern_def languageRx_def extendedLanguageRx_def scriptRx_def regionRx_def
      variantRx_def extensionRx_def dash_def)

lemma exec_capturedLength:
  assumes "exec pattern s = Some m"
  shows "capturedLength m \<le> length s"
proof -
  from assms obtain st where "find (\<lambda>st. fst st = []) (steps pattern (s, Map.empty)) = Some st"
    and m: "m = snd st"
    by (auto simp: exec_def)
  then have "st \<in> set (steps pattern (s, Map.empty))"
    by (auto simp: find_Some_iff)
  from steps_flat [OF flat_pattern this] m show ?thesis
    by (simp add: noLonger_def capturedLength_def captureLength_def)
qed

lemma length_unifiedSubtag_group:
  "length (unifiedSubtag (group m g)) \<le> captureLength m g"
  by (auto simp: unifiedSubtag_def group_def captureLength_def split: option.splits)

lemma list_all_update:
  "P (k, v) \<Longrightarrow> list_all P al \<Longrightarrow> list_all P (AList.update k v al)"
  by (induction al) auto

lemma createFromString_registryOk:
  assumes "registryOk rg" and "createFromString u rg = Inr (t, rg')"
  shows "registryOk rg'"
proof -
  from assms(2) obtain m lang where ex: "exec pattern u = Some m" and l: "m 1 = Some lang"
    and t: "t = LanguageTagImpl (allocated rg) lang (group m 2) (group m 3) (group m 4)
                  (group m 5) (group m 6)"
    and rg': "instances rg' = AList.update u t (instances rg)"
    by (auto simp: createFromString_def Let_def split: option.splits)
  have "keyLength t \<le> capturedLength m"
    using length_unifiedSubtag_group [of m 2] length_unifiedSubtag_group [of m 3]
      length_unifiedSubtag_group [of m 4] length_unifiedSubtag_group [of m 5]
      length_unifiedSubtag_group [of m 6] l
    by (simp add: t keyLength_LanguageTagImpl unifiedTagOf_def capturedLength_def
        captureLength_def)
  with exec_capturedLength [OF ex] have "keyLength t \<le> length u" by simp
  with assms(1) show ?thesis
    by (simp add: registryOk_def rg' list_all_update)
qed

lemma registryOk_empty: "registryOk emptyRegistry"
  by (simp add: registryOk_def emptyRegistry_def)

lemma languageTag_registryOk:
  "registryOk rg \<Longrightarrow> languageTag s rg = Inr (t, rg') \<Longrightarrow> registryOk rg'"
  by (auto simp: languageTag_def fromString_def Let_def split: option.splits
      dest: createFromString_registryOk)

lemma parent_registryOk:
  "registryOk rg \<Longrightarrow> registryOk (snd (parent t rg))"
  using parent_shorter [of rg t] parent_none_registry [of t rg]
  by (cases "parent t rg"; cases "fst (parent t rg)") auto

lemma partiallySupporting_registryOk:
  "registryOk rg \<Longrightarrow> partiallySupporting this lang translation rg = Inr (tr, rg') \<Longrightarrow>
   registryOk rg'"
  by (auto simp: partiallySupporting_def tagOf_def split: sum.splits Language.splits
      dest: languageTag_registryOk)

section \<open>What holds of interning and of the score\<close>

lemma toLowerChar_toUpperChar: "toLowerChar (toUpperChar c) = toLowerChar c"
  by (simp add: toLowerChar_def toUpperChar_def upperAZ_def lowerAZ_def
      split: option.splits if_splits)

lemma toLowerCase_toUpperCase: "toLowerCase (toUpperCase s) = toLowerCase s"
  by (simp add: toLowerCase_def toUpperCase_def toLowerChar_toUpperChar)

lemma languageTag_same_key:
  assumes "languageTag s rg = Inr (a, rg')" and "toLowerCase s' = toLowerCase s"
  shows "languageTag s' rg' = Inr (a, rg')"
proof (cases "map_of (instances rg) (toLowerCase s)")
  case None
  with assms(1) have "createFromString (toLowerCase s) rg = Inr (a, rg')"
    by (simp add: languageTag_def fromString_def)
  then have "map_of (instances rg') (toLowerCase s) = Some a"
    by (auto simp: createFromString_def Let_def update_conv' split: option.splits)
  with assms(2) show ?thesis
    by (simp add: languageTag_def fromString_def)
next
  case (Some existing)
  with assms show ?thesis
    by (auto simp: languageTag_def fromString_def)
qed

text \<open>
  A string that yields a tag yields the same object again in upper case.
\<close>

lemma languageTag_upper_same_object:
  "languageTag s rg = Inr (a, rg') \<Longrightarrow> languageTag (toUpperCase s) rg' = Inr (a, rg')"
  by (rule languageTag_same_key) (simp_all add: toLowerCase_toUpperCase)

lemma bit_step:
  fixes a b m n :: nat
  assumes "a \<le> 1" "b \<le> 1" "a + 2 * m = b + 2 * n"
  shows "a = b \<and> m = n"
  using assms by presburger

lemma bits_unique:
  fixes x1 x2 x3 x4 x5 y1 y2 y3 y4 y5 :: nat
  assumes b: "x1 \<le> 1" "x2 \<le> 1" "x3 \<le> 1" "x4 \<le> 1" "x5 \<le> 1"
    "y1 \<le> 1" "y2 \<le> 1" "y3 \<le> 1" "y4 \<le> 1" "y5 \<le> 1"
    and eq: "32 + x1 + 2 * x2 + 4 * x3 + 8 * x4 + 16 * x5 =
             32 + y1 + 2 * y2 + 4 * y3 + 8 * y4 + 16 * y5"
  shows "x1 = y1 \<and> x2 = y2 \<and> x3 = y3 \<and> x4 = y4 \<and> x5 = y5"
proof -
  from eq have "x1 + 2 * (x2 + 2 * (x3 + 2 * (x4 + 2 * x5))) =
                y1 + 2 * (y2 + 2 * (y3 + 2 * (y4 + 2 * y5)))"
    by simp
  from bit_step [OF b(1) b(6) this]
  have 1: "x1 = y1" and "x2 + 2 * (x3 + 2 * (x4 + 2 * x5)) = y2 + 2 * (y3 + 2 * (y4 + 2 * y5))"
    by simp_all
  from bit_step [OF b(2) b(7) this(2)]
  have 2: "x2 = y2" and "x3 + 2 * (x4 + 2 * x5) = y3 + 2 * (y4 + 2 * y5)"
    by simp_all
  from bit_step [OF b(3) b(8) this(2)]
  have 3: "x3 = y3" and "x4 + 2 * x5 = y4 + 2 * y5"
    by simp_all
  from bit_step [OF b(4) b(9) this(2)]
  have 4: "x4 = y4" and 5: "x5 = y5"
    by simp_all
  from 1 2 3 4 5 show ?thesis by simp
qed

lemma weights_unique:
  fixes p1 p2 p3 p4 p5 q1 q2 q3 q4 q5 :: bool
  shows "((32::nat) + (if p1 then 1 else 0) + (if p2 then 2 else 0) + (if p3 then 4 else 0) +
          (if p4 then 8 else 0) + (if p5 then 16 else 0) =
          32 + (if q1 then 1 else 0) + (if q2 then 2 else 0) + (if q3 then 4 else 0) +
          (if q4 then 8 else 0) + (if q5 then 16 else 0)) \<longleftrightarrow>
         (p1 = q1 \<and> p2 = q2 \<and> p3 = q3 \<and> p4 = q4 \<and> p5 = q5)"
proof
  assume eq: "(32::nat) + (if p1 then 1 else 0) + (if p2 then 2 else 0) + (if p3 then 4 else 0) +
          (if p4 then 8 else 0) + (if p5 then 16 else 0) =
          32 + (if q1 then 1 else 0) + (if q2 then 2 else 0) + (if q3 then 4 else 0) +
          (if q4 then 8 else 0) + (if q5 then 16 else 0)"
  have w: "(if p then k else 0) = k * of_bool p" for p and k :: nat
    by simp
  have "of_bool p1 = (of_bool q1 :: nat) \<and> of_bool p2 = (of_bool q2 :: nat) \<and>
        of_bool p3 = (of_bool q3 :: nat) \<and> of_bool p4 = (of_bool q4 :: nat) \<and>
        of_bool p5 = (of_bool q5 :: nat)"
  proof (rule bits_unique)
    show "32 + of_bool p1 + 2 * of_bool p2 + 4 * of_bool p3 + 8 * of_bool p4 + 16 * of_bool p5 =
          (32::nat) + of_bool q1 + 2 * of_bool q2 + 4 * of_bool q3 + 8 * of_bool q4 + 16 * of_bool q5"
      using eq unfolding w by simp
  qed simp_all
  moreover have "p = q" if "of_bool p = (of_bool q :: nat)" for p q
    using that by (cases p; cases q) simp_all
  ultimately show "p1 = q1 \<and> p2 = q2 \<and> p3 = q3 \<and> p4 = q4 \<and> p5 = q5"
    by blast
next
  assume "p1 = q1 \<and> p2 = q2 \<and> p3 = q3 \<and> p4 = q4 \<and> p5 = q5"
  then show "(32::nat) + (if p1 then 1 else 0) + (if p2 then 2 else 0) + (if p3 then 4 else 0) +
          (if p4 then 8 else 0) + (if p5 then 16 else 0) =
          32 + (if q1 then 1 else 0) + (if q2 then 2 else 0) + (if q3 then 4 else 0) +
          (if q4 then 8 else 0) + (if q5 then 16 else 0)"
    by simp
qed

lemma possiblePoints_pos: "0 < possiblePoints a b"
  by (simp add: possiblePoints_def)

text \<open>
  The score is 1 exactly when the languages are equal and each of the five other subtags
  is equal on both sides exactly when one side has it. A subtag that both sides lack is
  equal and on neither side, so two tags that lack the same subtag never score 1.
\<close>

lemma equality_one_iff:
  "equality a b = 1 \<longleftrightarrow>
     language a = language b \<and>
     (extension a = extension b) = (truthy (extension a) \<or> truthy (extension b)) \<and>
     (variant a = variant b) = (truthy (variant a) \<or> truthy (variant b)) \<and>
     (region a = region b) = (truthy (region a) \<or> truthy (region b)) \<and>
     (script a = script b) = (truthy (script a) \<or> truthy (script b)) \<and>
     (extendedLanguage a = extendedLanguage b) =
       (truthy (extendedLanguage a) \<or> truthy (extendedLanguage b))"
proof (cases "language a = language b")
  case False
  then show ?thesis by (simp add: equality_def)
next
  case True
  have "equality a b = 1 \<longleftrightarrow> points a b = possiblePoints a b"
    using True possiblePoints_pos [of a b] by (auto simp: equality_def)
  also have "\<dots> \<longleftrightarrow>
     ((extension a = extension b) = (truthy (extension a) \<or> truthy (extension b)) \<and>
      (variant a = variant b) = (truthy (variant a) \<or> truthy (variant b)) \<and>
      (region a = region b) = (truthy (region a) \<or> truthy (region b)) \<and>
      (script a = script b) = (truthy (script a) \<or> truthy (script b)) \<and>
      (extendedLanguage a = extendedLanguage b) =
        (truthy (extendedLanguage a) \<or> truthy (extendedLanguage b)))"
    unfolding points_def possiblePoints_def by (rule weights_unique)
  finally show ?thesis using True by simp
qed

text \<open>
  With the languages equal, the score of a tag against itself is 63 over its possible
  points, which are 63 only when all five other subtags are present.
\<close>

lemma equality_self: "equality a a = 63 / of_nat (possiblePoints a a)"
  by (simp add: equality_def points_def)

section \<open>The parent as an object\<close>

lemma toLowerChar_idem: "toLowerChar (toLowerChar c) = toLowerChar c"
  by (simp add: toLowerChar_def upperAZ_def lowerAZ_def split: option.splits if_splits)

lemma toUpperChar_idem: "toUpperChar (toUpperChar c) = toUpperChar c"
  by (simp add: toUpperChar_def upperAZ_def lowerAZ_def split: option.splits if_splits)

lemma toLowerCase_idem: "toLowerCase (toLowerCase s) = toLowerCase s"
  by (simp add: toLowerCase_def toLowerChar_idem)

lemma toUpperCase_idem: "toUpperCase (toUpperCase s) = toUpperCase s"
  by (simp add: toUpperCase_def toUpperChar_idem)

lemma titleCase_idem: "titleCase (titleCase s) = titleCase s"
  by (cases s) (simp_all add: toUpperCase_def toLowerCase_def toUpperChar_idem toLowerChar_idem)

lemma transform_idem:
  assumes "\<And>s. f (f s) = f s" and "\<And>s. length (f s) = length s"
  shows "transform (transform t f) f = transform t f"
proof -
  have "f s = [] \<longleftrightarrow> s = []" for s
    using assms(2) [of s] by (metis length_0_conv)
  with assms(1) show ?thesis
    by (auto simp: transform_def split: option.splits)
qed

lemma normal_constructed: "normal (subtagsOf (LanguageTagImpl n l e s r v x))"
  by (simp add: subtagsOf_def LanguageTagImpl_def Let_def toLowerCase_idem transform_idem
      toUpperCase_idem titleCase_idem)

lemma normal_generalize: "normal g \<Longrightarrow> generalize g = Some g' \<Longrightarrow> normal g'"
  by (cases g) (auto simp: transform_None split: if_splits)

lemma subtagsOf_normal:
  "normal g \<Longrightarrow> subtagsOf (LanguageTagImpl m (fst g) (fst (snd g)) (fst (snd (snd g)))
      (fst (snd (snd (snd g)))) (fst (snd (snd (snd (snd g))))) (snd (snd (snd (snd (snd g)))))) = g"
  by (cases g) (simp add: subtagsOf_def LanguageTagImpl_def Let_def)

text \<open>
  The parent of a tag that the constructor made, when its key is new to the registry: a
  new object whose subtags are those of the tag without the most specific one.
\<close>

lemma parent_new_object:
  assumes g: "generalize (subtagsOf (LanguageTagImpl n l e s r v x)) = Some g"
    and new: "map_of (instances rg) (unifiedTagOfTuple g) = None"
  shows "\<exists>p. fst (parent (LanguageTagImpl n l e s r v x) rg) = Some p \<and>
           subtagsOf p = g \<and> oid p = allocated rg"
proof -
  from normal_generalize [OF normal_constructed g] have ng: "normal g" .
  obtain l' e' s' r' v' x' where gt: "g = (l', e', s', r', v', x')" by (cases g)
  from new have "fst (fromSubtagTuple g rg) = LanguageTagImpl (allocated rg) l' e' s' r' v' x'"
    by (simp add: gt fromSubTags_def Let_def)
  moreover from subtagsOf_normal [OF ng, of "allocated rg"]
  have "subtagsOf (LanguageTagImpl (allocated rg) l' e' s' r' v' x') = g"
    by (simp add: gt)
  moreover have "oid (LanguageTagImpl (allocated rg) l' e' s' r' v' x') = allocated rg"
    by (simp add: LanguageTagImpl_def Let_def)
  ultimately show ?thesis
    using g by (simp add: parent_generalize)
qed

end
